theory Spec2Isabelle
  imports Main "HOL-Library.AList" "HOL-Library.Char_ord" "HOL-Library.List_Lexorder"
    "HOL-Library.Multiset"
begin

section \<open>Tabular architecture comparison: the diff engine of compare_architectures_tabular.py\<close>

text \<open>
  The development embeds the class \<open>TabularArchitectureComparator\<close>. Python strings are
  \<^typ>\<open>string\<close> (one \<^typ>\<open>char\<close> per code point, so code points below 256), ordered
  as Python orders them, lexicographically by code point. Python dictionaries are
  association lists in insertion order with distinct keys, and a Python \<open>set\<close> is a
  duplicate-free list of its elements. The order in which a \<open>for\<close> loop visits a set of
  strings is fixed by the interpreter's string hashing, not by the program; every function
  that loops over a set therefore takes that order as the parameter \<open>set_order\<close>, a
  function from the elements to the sequence visited.

  The parsed JSON documents are typed: a codename, an identifier and a rationale are
  strings, \<open>number_of_instances\<close> is an integer, the search spaces are lists of
  dictionaries, and a dictionary of architectures has its \<open>architecture_id\<close>. The JSON
  values the program only stores and compares have the type \<^typ>\<open>'v\<close>, compared by
  equality. Under these types no statement of the methods embedded raises. The \<open>print\<close>
  calls, the loading of files and the export are not modelled.
\<close>

subsection \<open>Python string operations\<close>

text \<open>\<open>sep.join(xs)\<close>.\<close>

fun py_join :: "string \<Rightarrow> string list \<Rightarrow> string" where
  "py_join sep [] = []"
| "py_join sep [x] = x"
| "py_join sep (x # y # ys) = x @ sep @ py_join sep (y # ys)"

text \<open>\<open>str.isspace\<close> on one character, for the code points below 256.\<close>

definition py_isspace :: "char \<Rightarrow> bool" where
  "py_isspace c =
     (let n = (of_char c :: nat)
      in (9 \<le> n \<and> n \<le> 13) \<or> (28 \<le> n \<and> n \<le> 32) \<or> n = 133 \<or> n = 160)"

text \<open>\<open>s.strip()\<close>: whitespace removed at both ends.\<close>

definition py_strip :: "string \<Rightarrow> string" where
  "py_strip s = rev (dropWhile py_isspace (rev (dropWhile py_isspace s)))"

text \<open>\<open>s.lower()\<close>, for the code points below 256.\<close>

definition py_lower_char :: "char \<Rightarrow> char" where
  "py_lower_char c =
     (let n = (of_char c :: nat)
      in if (65 \<le> n \<and> n \<le> 90) \<or> (192 \<le> n \<and> n \<le> 222 \<and> n \<noteq> 215)
         then char_of (n + 32) else c)"

definition py_lower :: "string \<Rightarrow> string" where
  "py_lower s = map py_lower_char s"

text \<open>\<open>s.startswith(p)\<close>, \<open>p in s\<close> and \<open>s.endswith(''.'')\<close>.\<close>

fun py_startswith :: "string \<Rightarrow> string \<Rightarrow> bool" where
  "py_startswith s [] = True"
| "py_startswith [] (p # ps) = False"
| "py_startswith (c # cs) (p # ps) = (c = p \<and> py_startswith cs ps)"

fun py_contains :: "string \<Rightarrow> string \<Rightarrow> bool" where
  "py_contains p [] = (p = [])"
| "py_contains p (c # cs) = (py_startswith (c # cs) p \<or> py_contains p cs)"

definition py_endswith_dot :: "string \<Rightarrow> bool" where
  "py_endswith_dot s = (case rev s of [] \<Rightarrow> False | c # _ \<Rightarrow> c = CHR ''.'')"

text \<open>
  \<open>text.split(". ")\<close>: the text is cut at every occurrence of the two characters, scanning
  from the left without overlap; \<open>cur\<close> holds the characters of the current piece, last
  one first.
\<close>

fun split_dot_space :: "string \<Rightarrow> string \<Rightarrow> string list" where
  "split_dot_space cur [] = [rev cur]"
| "split_dot_space cur [c] = [rev (c # cur)]"
| "split_dot_space cur (c # d # cs) =
     (if c = CHR ''.'' \<and> d = CHR '' '' then rev cur # split_dot_space [] cs
      else split_dot_space (c # cur) (d # cs))"

definition py_split_dot_space :: "string \<Rightarrow> string list" where
  "py_split_dot_space s = split_dot_space [] s"

text \<open>\<open>s[:150] + ("..." if len(s) > 150 else "")\<close>.\<close>

definition truncate150 :: "string \<Rightarrow> string" where
  "truncate150 s = take 150 s @ (if length s > 150 then ''...'' else [])"

subsection \<open>The rationale extractor\<close>

definition key_phrases :: "string list" where
  "key_phrases =
     [''because'', ''due to'', ''in order to'', ''to ensure'', ''chosen to'',
      ''selected to'', ''prioritized'', ''optimized for'', ''designed for'',
      ''configured for'', ''focused on'', ''enables'', ''allows'', ''provides'',
      ''ensures'', ''guarantees'', ''supports'']"

text \<open>\<open>any(phrase in sentence.lower() for phrase in key_phrases)\<close>.\<close>

definition has_key_phrase :: "string \<Rightarrow> bool" where
  "has_key_phrase sentence = list_ex (\<lambda>phrase. py_contains phrase (py_lower sentence)) key_phrases"

text \<open>The first loop of \<open>_extract_key_insight\<close>: it collects \<open>key_sentences\<close>.\<close>

fun collect_key_sentences :: "string list \<Rightarrow> string list" where
  "collect_key_sentences [] = []"
| "collect_key_sentences (s # ss) =
     (let sentence = py_strip s
      in if has_key_phrase sentence
         then (if sentence \<noteq> [] \<and> \<not> py_endswith_dot sentence then sentence @ ''.'' else sentence)
              # collect_key_sentences ss
         else collect_key_sentences ss)"

text \<open>The second loop: the first stripped sentence of more than 30 characters, if any.\<close>

fun first_meaningful :: "string list \<Rightarrow> string option" where
  "first_meaningful [] = None"
| "first_meaningful (s # ss) =
     (let sentence = py_strip s
      in if length sentence > 30 then Some sentence else first_meaningful ss)"

definition extract_key_insight :: "string \<Rightarrow> string \<Rightarrow> string" where
  "extract_key_insight text context =
     (if text = [] then []
      else
        let text' = py_strip text;
            sentences = py_split_dot_space text'
        in case collect_key_sentences sentences of
             k # _ \<Rightarrow> truncate150 k
           | [] \<Rightarrow>
              (case first_meaningful sentences of
                 Some sentence \<Rightarrow> truncate150 sentence
               | None \<Rightarrow> truncate150 text'))"

subsection \<open>Dictionaries and sets\<close>

text \<open>\<open>d.get(key, default)\<close> on a field that may be absent.\<close>

definition py_get :: "'a option \<Rightarrow> 'a \<Rightarrow> 'a" where
  "py_get field dflt = (case field of None \<Rightarrow> dflt | Some v \<Rightarrow> v)"

text \<open>
  \<open>a == b\<close> on two dictionaries: the same number of entries, and every key of \<open>a\<close> is a key
  of \<open>b\<close> with an equal value; \<open>veq\<close> is the equality of the values.
\<close>

definition py_dict_eq :: "('v \<Rightarrow> 'v \<Rightarrow> bool) \<Rightarrow> ('k \<times> 'v) list \<Rightarrow> ('k \<times> 'v) list \<Rightarrow> bool" where
  "py_dict_eq veq a b =
     (length a = length b \<and>
      list_all (\<lambda>(k, v). case map_of b k of None \<Rightarrow> False | Some w \<Rightarrow> veq v w) a)"

text \<open>Sets of strings: \<open>a == b\<close>, \<open>a | b\<close>, \<open>a - b\<close>, \<open>a & b\<close>.\<close>

definition py_set_eq :: "'a list \<Rightarrow> 'a list \<Rightarrow> bool" where
  "py_set_eq a b = (list_all (\<lambda>x. x \<in> set b) a \<and> list_all (\<lambda>x. x \<in> set a) b)"

definition py_set_union :: "'a list \<Rightarrow> 'a list \<Rightarrow> 'a list" where
  "py_set_union a b = remdups (a @ b)"

definition py_set_diff :: "'a list \<Rightarrow> 'a list \<Rightarrow> 'a list" where
  "py_set_diff a b = filter (\<lambda>x. x \<notin> set b) a"

definition py_set_inter :: "'a list \<Rightarrow> 'a list \<Rightarrow> 'a list" where
  "py_set_inter a b = filter (\<lambda>x. x \<in> set b) a"

text \<open>\<open>str(n)\<close> for an integer, and for the \<open>None\<close> that \<open>get\<close> returns on a missing key.\<close>

fun str_nat :: "nat \<Rightarrow> string" where
  "str_nat n = (if n < 10 then [char_of (48 + n)] else str_nat (n div 10) @ [char_of (48 + n mod 10)])"

declare str_nat.simps [simp del]

definition str_int :: "int \<Rightarrow> string" where
  "str_int i = (if i < 0 then ''-'' @ str_nat (nat (- i)) else str_nat (nat i))"

definition str_opt_int :: "int option \<Rightarrow> string" where
  "str_opt_int v = (case v of None \<Rightarrow> ''None'' | Some i \<Rightarrow> str_int i)"

subsection \<open>Data model\<close>

text \<open>
  The raw architecture document, as parsed JSON. A field of type \<open>option\<close> is a key that may
  be absent; \<^typ>\<open>'v\<close> is the type of the JSON values the program only stores and compares.
\<close>

record 'v attribute =
  attribute_codename :: "string option"
  attribute_values :: "'v option"
  attribute_constraint_expr :: "'v option"
  attribute_unit :: "'v option"

record 'v service_component =
  service_component_codename :: "string option"
  attributes_search_space :: "'v attribute list option"
  number_of_instances :: "int option"
  service_component_sort :: "'v list option"

record 'v service_space =
  service_codename :: "string option"
  service_select_attributes :: "'v list option"
  service_components_search_spaces :: "'v service_component list option"

record 'v component =
  component_id :: "string option"
  service_search_space :: "'v service_space option"

record 'v architecture =
  raw_architecture_id :: string
  components_search_space :: "'v component list option"

text \<open>The normalized structure: the value of the key \<open>"services"\<close> of the dictionary built.\<close>

record 'v component_entry =
  ce_component_id :: string
  ce_service_component_codename :: string
  ce_attributes_search_space :: "'v attribute list"
  ce_number_of_instances :: int
  ce_service_component_sort :: "'v list"

record 'v service_entry =
  se_service_codename :: string
  se_select_attributes :: "'v list"
  se_components :: "(string \<times> 'v component_entry) list"

type_synonym 'v arch_structure = "(string \<times> 'v service_entry) list"

text \<open>The dictionaries of \<open>_get_all_attributes\<close> and \<open>_get_all_configurations\<close>.\<close>

record attr_marker =
  am_codename :: string
  am_exists :: bool

record 'v attr_config =
  ac_values :: "'v option"
  ac_constraint :: "'v option"
  ac_unit :: "'v option"

record 'v comp_config =
  cc_instances :: int
  cc_sort :: "'v list"
  cc_attributes :: "(string \<times> 'v attr_config) list"

text \<open>A reasoning object, and one entry of its list \<open>alternatives_considered\<close>.\<close>

datatype 'v alternative = Alt_str string | Alt_other 'v

record 'v reasoning_object =
  r_service_codename :: "string option"
  attribute_selection_rationale :: "string option"
  critical_attributes_reasoning :: "string option"
  alternatives_considered :: "'v alternative list option"
  service_understanding :: "string option"

record tabular_comparison_row =
  architecture_id :: string
  services_same :: int
  components_same :: int
  attributes_same :: int
  configurations_same :: int
  services_differences :: string
  components_differences :: string
  attributes_differences :: string
  configurations_differences :: string
  reasoning_description :: string

text \<open>
  The comparator after \<open>__init__\<close>: the lists under \<open>"architectures"\<close> of the two loaded
  documents (empty when the key is absent or the load failed) and the two lookup tables.
\<close>

record 'v comparator =
  baseline_data :: "'v architecture list"
  enhanced_data :: "'v architecture list"
  baseline_reasoning_lookup :: "(string \<times> 'v reasoning_object) list"
  enhanced_reasoning_lookup :: "(string \<times> 'v reasoning_object) list"

subsection \<open>The structure normalizer\<close>

definition empty_service_space :: "'v service_space" where
  "empty_service_space =
     \<lparr>service_codename = None, service_select_attributes = None,
      service_components_search_spaces = None\<rparr>"

text \<open>The body of the inner loop: one entry of \<open>service_components_search_spaces\<close> is stored.\<close>

definition store_service_component ::
  "string \<Rightarrow> 'v service_component \<Rightarrow> (string \<times> 'v component_entry) list
     \<Rightarrow> (string \<times> 'v component_entry) list" where
  "store_service_component cid service_component comps =
     (let comp_name = py_get (service_component_codename service_component) ''Unknown'';
          full_comp_name = cid @ ''_'' @ comp_name
      in AList.update full_comp_name
           \<lparr>ce_component_id = cid,
            ce_service_component_codename = comp_name,
            ce_attributes_search_space = py_get (attributes_search_space service_component) [],
            ce_number_of_instances = py_get (number_of_instances service_component) 1,
            ce_service_component_sort = py_get (service_component_sort service_component) []\<rparr>
           comps)"

text \<open>The body of the outer loop, on one entry of \<open>components_search_space\<close>.\<close>

definition add_component :: "'v component \<Rightarrow> 'v arch_structure \<Rightarrow> 'v arch_structure" where
  "add_component component services =
     (let cid = py_get (component_id component) [];
          service_space = py_get (service_search_space component) empty_service_space;
          codename = py_get (service_codename service_space) ''Unknown'';
          services' =
            (if codename \<notin> set (map fst services)
             then AList.update codename
                    \<lparr>se_service_codename = codename,
                     se_select_attributes = py_get (service_select_attributes service_space) [],
                     se_components = []\<rparr>
                    services
             else services)
      in AList.map_entry codename
           (\<lambda>s. s\<lparr>se_components :=
                     fold (store_service_component cid)
                       (py_get (service_components_search_spaces service_space) [])
                       (se_components s)\<rparr>)
           services')"

definition extract_architecture_structure :: "'v architecture option \<Rightarrow> 'v arch_structure" where
  "extract_architecture_structure arch_data =
     (case arch_data of
        None \<Rightarrow> []
      | Some a \<Rightarrow> fold add_component (py_get (components_search_space a) []) [])"

subsection \<open>The services and components levels\<close>

text \<open>
  Both functions end with the same statements on their two key sets: the equality, the
  two one-sided differences sorted, and the joined text.
\<close>

definition compare_key_sets :: "string list \<Rightarrow> string list \<Rightarrow> bool \<times> string" where
  "compare_key_sets baseline_keys enhanced_keys =
     (let same = py_set_eq baseline_keys enhanced_keys;
          baseline_only = py_set_diff baseline_keys enhanced_keys;
          enhanced_only = py_set_diff enhanced_keys baseline_keys;
          differences =
            (if \<not> same
             then (if baseline_only \<noteq> []
                   then [''Baseline only: '' @ py_join '', '' (sort baseline_only)] else [])
                @ (if enhanced_only \<noteq> []
                   then [''Enhanced only: '' @ py_join '', '' (sort enhanced_only)] else [])
             else [])
      in (same, if differences \<noteq> [] then py_join ''; '' differences else ''No differences''))"

definition compare_services_level :: "'v arch_structure \<Rightarrow> 'v arch_structure \<Rightarrow> bool \<times> string" where
  "compare_services_level baseline_structure enhanced_structure =
     compare_key_sets (map fst baseline_structure) (map fst enhanced_structure)"

definition flatten_components :: "'v arch_structure \<Rightarrow> (string \<times> 'v component_entry) list" where
  "flatten_components struct =
     fold (\<lambda>(service_name, service_data) components.
             fold (\<lambda>(comp_name, comp_data).
                     AList.update (service_name @ ''::'' @ comp_name) comp_data)
               (se_components service_data) components)
       struct []"

definition compare_components_level :: "'v arch_structure \<Rightarrow> 'v arch_structure \<Rightarrow> bool \<times> string" where
  "compare_components_level baseline_structure enhanced_structure =
     compare_key_sets (map fst (flatten_components baseline_structure))
       (map fst (flatten_components enhanced_structure))"

subsection \<open>The attributes level\<close>

text \<open>The innermost loop of \<open>_get_all_attributes\<close>: one attribute is marked as existing.\<close>

definition mark_attribute :: "'v attribute \<Rightarrow> (string \<times> attr_marker) list \<Rightarrow> (string \<times> attr_marker) list" where
  "mark_attribute attr marks =
     (let attr_name = py_get (attribute_codename attr) ''unknown''
      in AList.update attr_name \<lparr>am_codename = attr_name, am_exists = True\<rparr> marks)"

text \<open>
  \<open>_get_all_attributes\<close>. The assignment \<open>attributes[comp_key] = {}\<close> and the loop that
  fills the new dictionary are one update with the dictionary filled.
\<close>

definition get_all_attributes :: "'v arch_structure \<Rightarrow> (string \<times> (string \<times> attr_marker) list) list" where
  "get_all_attributes struct =
     fold (\<lambda>(service_name, service_data) attributes.
             fold (\<lambda>(comp_name, comp_data).
                     AList.update (service_name @ ''::'' @ comp_name)
                       (fold mark_attribute (ce_attributes_search_space comp_data) []))
               (se_components service_data) attributes)
       struct []"

text \<open>
  The body of the loop over \<open>all_comp_keys\<close>: the entries it appends to \<open>differences\<close>
  for one component key (none or one).
\<close>

definition attributes_entry ::
  "(string \<times> (string \<times> attr_marker) list) list \<Rightarrow> (string \<times> (string \<times> attr_marker) list) list
     \<Rightarrow> string \<Rightarrow> string list" where
  "attributes_entry baseline_attrs enhanced_attrs comp_key =
     (let baseline_comp_attrs = py_get (map_of baseline_attrs comp_key) [];
          enhanced_comp_attrs = py_get (map_of enhanced_attrs comp_key) []
      in if \<not> py_dict_eq (=) baseline_comp_attrs enhanced_comp_attrs
         then
           (let baseline_attr_names = map fst baseline_comp_attrs;
                enhanced_attr_names = map fst enhanced_comp_attrs
            in if \<not> py_set_eq baseline_attr_names enhanced_attr_names
               then
                 (let baseline_only = py_set_diff baseline_attr_names enhanced_attr_names;
                      enhanced_only = py_set_diff enhanced_attr_names baseline_attr_names
                  in if baseline_only \<noteq> [] \<or> enhanced_only \<noteq> []
                     then
                       (let comp_diffs =
                              (if baseline_only \<noteq> []
                               then [''baseline only: '' @ py_join '', '' (sort baseline_only)]
                               else [])
                            @ (if enhanced_only \<noteq> []
                               then [''enhanced only: '' @ py_join '', '' (sort enhanced_only)]
                               else [])
                        in [comp_key @ '' ('' @ py_join ''; '' comp_diffs @ '')''])
                     else [])
               else [])
         else [])"

definition compare_attributes_level ::
  "(string list \<Rightarrow> string list) \<Rightarrow> 'v arch_structure \<Rightarrow> 'v arch_structure \<Rightarrow> bool \<times> string" where
  "compare_attributes_level set_order baseline_structure enhanced_structure =
     (let baseline_attrs = get_all_attributes baseline_structure;
          enhanced_attrs = get_all_attributes enhanced_structure;
          same = py_dict_eq (py_dict_eq (=)) baseline_attrs enhanced_attrs;
          differences =
            (if \<not> same
             then concat (map (attributes_entry baseline_attrs enhanced_attrs)
                    (set_order (py_set_union (map fst baseline_attrs) (map fst enhanced_attrs))))
             else [])
      in (same, if differences \<noteq> [] then py_join ''; '' differences else ''No differences''))"

subsection \<open>The configurations level\<close>

definition configure_attribute :: "'v attribute \<Rightarrow> (string \<times> 'v attr_config) list \<Rightarrow> (string \<times> 'v attr_config) list" where
  "configure_attribute attr configs =
     (let attr_name = py_get (attribute_codename attr) ''unknown''
      in AList.update attr_name
           \<lparr>ac_values = attribute_values attr,
            ac_constraint = attribute_constraint_expr attr,
            ac_unit = attribute_unit attr\<rparr> configs)"

text \<open>\<open>_get_all_configurations\<close>, with the inner dictionary filled before it is stored.\<close>

definition get_all_configurations :: "'v arch_structure \<Rightarrow> (string \<times> 'v comp_config) list" where
  "get_all_configurations struct =
     fold (\<lambda>(service_name, service_data) configurations.
             fold (\<lambda>(comp_name, comp_data).
                     AList.update (service_name @ ''::'' @ comp_name)
                       \<lparr>cc_instances = ce_number_of_instances comp_data,
                        cc_sort = ce_service_component_sort comp_data,
                        cc_attributes =
                          fold configure_attribute (ce_attributes_search_space comp_data) []\<rparr>)
               (se_components service_data) configurations)
       struct []"

text \<open>
  \<open>a == b\<close> on two configuration dictionaries of one component. In the loops a missing
  dictionary is the empty one, modelled as \<open>None\<close> (a stored one has three keys, so it is
  never empty), and \<open>get\<close> on it returns \<open>None\<close>.
\<close>

definition comp_config_eq :: "'v comp_config \<Rightarrow> 'v comp_config \<Rightarrow> bool" where
  "comp_config_eq c d =
     (cc_instances c = cc_instances d \<and> cc_sort c = cc_sort d \<and>
      py_dict_eq (=) (cc_attributes c) (cc_attributes d))"

definition get_field :: "('a \<Rightarrow> 'b option) \<Rightarrow> 'a option \<Rightarrow> 'b option" where
  "get_field f d = (case d of None \<Rightarrow> None | Some r \<Rightarrow> f r)"

text \<open>The body of the loop over the attribute names of one component.\<close>

definition configuration_attr_entry ::
  "(string \<times> 'v attr_config) list \<Rightarrow> (string \<times> 'v attr_config) list \<Rightarrow> string \<Rightarrow> string list" where
  "configuration_attr_entry baseline_attr_configs enhanced_attr_configs attr_name =
     (let baseline_attr = map_of baseline_attr_configs attr_name;
          enhanced_attr = map_of enhanced_attr_configs attr_name
      in if baseline_attr \<noteq> enhanced_attr
         then
           (let attr_diffs =
                  (if get_field ac_values baseline_attr \<noteq> get_field ac_values enhanced_attr
                   then [''values''] else [])
                @ (if get_field ac_constraint baseline_attr \<noteq> get_field ac_constraint enhanced_attr
                   then [''constraint''] else [])
                @ (if get_field ac_unit baseline_attr \<noteq> get_field ac_unit enhanced_attr
                   then [''unit''] else [])
            in if attr_diffs \<noteq> [] then [attr_name @ '': '' @ py_join '', '' attr_diffs] else [])
         else [])"

text \<open>The body of the loop over \<open>all_comp_keys\<close>.\<close>

definition configurations_entry ::
  "(string list \<Rightarrow> string list) \<Rightarrow> (string \<times> 'v comp_config) list \<Rightarrow> (string \<times> 'v comp_config) list
     \<Rightarrow> string \<Rightarrow> string list" where
  "configurations_entry set_order baseline_configs enhanced_configs comp_key =
     (let baseline_comp_configs = map_of baseline_configs comp_key;
          enhanced_comp_configs = map_of enhanced_configs comp_key
      in if \<not> rel_option comp_config_eq baseline_comp_configs enhanced_comp_configs
         then
           (let baseline_instances = map_option cc_instances baseline_comp_configs;
                enhanced_instances = map_option cc_instances enhanced_comp_configs;
                baseline_attr_configs = py_get (map_option cc_attributes baseline_comp_configs) [];
                enhanced_attr_configs = py_get (map_option cc_attributes enhanced_comp_configs) [];
                comp_diffs =
                  (if baseline_instances \<noteq> enhanced_instances
                   then [''instances: '' @ str_opt_int baseline_instances @ '' vs ''
                           @ str_opt_int enhanced_instances]
                   else [])
                @ (if map_option cc_sort baseline_comp_configs \<noteq> map_option cc_sort enhanced_comp_configs
                   then [''sort configuration differs''] else [])
                @ concat (map (configuration_attr_entry baseline_attr_configs enhanced_attr_configs)
                    (set_order (py_set_union (map fst baseline_attr_configs)
                       (map fst enhanced_attr_configs))))
            in if comp_diffs \<noteq> [] then [comp_key @ '' ('' @ py_join ''; '' comp_diffs @ '')''] else [])
         else [])"

definition compare_configurations_level ::
  "(string list \<Rightarrow> string list) \<Rightarrow> 'v arch_structure \<Rightarrow> 'v arch_structure \<Rightarrow> bool \<times> string" where
  "compare_configurations_level set_order baseline_structure enhanced_structure =
     (let baseline_configs = get_all_configurations baseline_structure;
          enhanced_configs = get_all_configurations enhanced_structure;
          same = py_dict_eq comp_config_eq baseline_configs enhanced_configs;
          differences =
            (if \<not> same
             then concat (map (configurations_entry set_order baseline_configs enhanced_configs)
                    (set_order (py_set_union (map fst baseline_configs) (map fst enhanced_configs))))
             else [])
      in (same, if differences \<noteq> [] then py_join ''; '' differences else ''No differences''))"

subsection \<open>The reasoning description\<close>

text \<open>\<open>_create_reasoning_lookup\<close>, on the list under \<open>"reasoning_objects"\<close>.\<close>

definition create_reasoning_lookup :: "'v reasoning_object list \<Rightarrow> (string \<times> 'v reasoning_object) list" where
  "create_reasoning_lookup reasoning_objects =
     fold (\<lambda>reasoning_obj lookup.
             case r_service_codename reasoning_obj of
               None \<Rightarrow> lookup
             | Some service_name \<Rightarrow>
                 if service_name \<noteq> [] then AList.update service_name reasoning_obj lookup
                 else lookup)
       reasoning_objects []"

text \<open>
  \<open>lookup.get(service_name, {}).get(field, default)\<close>, where the default is the empty string
  or the empty list.
\<close>

definition reasoning_field :: "('r \<Rightarrow> 'a list option) \<Rightarrow> 'r option \<Rightarrow> 'a list" where
  "reasoning_field f reasoning = (case reasoning of None \<Rightarrow> [] | Some r \<Rightarrow> py_get (f r) [])"

text \<open>An insight with its label, when the extractor returns a non-empty one.\<close>

definition labelled_insight :: "string \<Rightarrow> string \<Rightarrow> string \<Rightarrow> string list" where
  "labelled_insight label text context =
     (let key_insight = extract_key_insight text context
      in if key_insight \<noteq> [] then [label @ key_insight] else [])"

text \<open>
  The body of the loop over \<open>all_services\<close>: the entries appended to \<open>descriptions\<close> for one
  service. \<open>py_str\<close> is \<open>str\<close> on a JSON value that is not a string.
\<close>

definition service_descriptions ::
  "('v \<Rightarrow> string) \<Rightarrow> 'v comparator \<Rightarrow> string list \<Rightarrow> string list \<Rightarrow> string \<Rightarrow> string list" where
  "service_descriptions py_str self baseline_services enhanced_services service_name =
     (let baseline_reasoning = map_of (baseline_reasoning_lookup self) service_name;
          enhanced_reasoning = map_of (enhanced_reasoning_lookup self) service_name;
          baseline_attr_rationale = reasoning_field attribute_selection_rationale baseline_reasoning;
          enhanced_attr_rationale = reasoning_field attribute_selection_rationale enhanced_reasoning;
          baseline_critical_attrs = reasoning_field critical_attributes_reasoning baseline_reasoning;
          enhanced_critical_attrs = reasoning_field critical_attributes_reasoning enhanced_reasoning;
          baseline_alternatives = reasoning_field alternatives_considered baseline_reasoning;
          enhanced_alternatives = reasoning_field alternatives_considered enhanced_reasoning
      in if service_name \<in> set baseline_services \<and> service_name \<in> set enhanced_services
         then
           (let insights =
                  (if baseline_attr_rationale \<noteq> enhanced_attr_rationale \<and> enhanced_attr_rationale \<noteq> []
                   then labelled_insight ''Attribute selection: '' enhanced_attr_rationale
                          ''Enhanced reasoning''
                   else [])
                @ (if baseline_critical_attrs \<noteq> enhanced_critical_attrs \<and> enhanced_critical_attrs \<noteq> []
                   then labelled_insight ''Critical attributes: '' enhanced_critical_attrs
                          ''Critical attributes''
                   else [])
                @ (if baseline_alternatives \<noteq> enhanced_alternatives
                   then (case enhanced_alternatives of
                           [] \<Rightarrow> []
                         | first_alt # _ \<Rightarrow>
                             labelled_insight ''Design choice: ''
                               (case first_alt of Alt_str t \<Rightarrow> t | Alt_other v \<Rightarrow> py_str v)
                               ''Alternative considered'')
                   else [])
            in if insights \<noteq> [] then [service_name @ '': '' @ py_join ''; '' insights] else [])
         else if service_name \<in> set enhanced_services \<and> service_name \<notin> set baseline_services
         then
           (let enhanced_understanding = reasoning_field service_understanding enhanced_reasoning
            in (if enhanced_understanding \<noteq> []
                then labelled_insight (service_name @ '' (Enhanced only): '') enhanced_understanding
                       ''Service purpose''
                else [])
             @ (if enhanced_attr_rationale \<noteq> []
                then labelled_insight (service_name @ '' selection reasoning: '')
                       enhanced_attr_rationale ''Selection rationale''
                else []))
         else if service_name \<in> set baseline_services \<and> service_name \<notin> set enhanced_services
         then
           (let baseline_understanding = reasoning_field service_understanding baseline_reasoning
            in if baseline_understanding \<noteq> []
               then labelled_insight (service_name @ '' (Baseline only): '') baseline_understanding
                      ''Service purpose''
               else [])
         else [])"

text \<open>The body of the second loop, over the first two common services.\<close>

definition common_service_description :: "'v comparator \<Rightarrow> string \<Rightarrow> string list" where
  "common_service_description self service_name =
     (let reasoning =
            (case map_of (enhanced_reasoning_lookup self) service_name of
               Some r \<Rightarrow> Some r
             | None \<Rightarrow> map_of (baseline_reasoning_lookup self) service_name);
          attr_rationale = reasoning_field attribute_selection_rationale reasoning;
          critical_attrs = reasoning_field critical_attributes_reasoning reasoning
      in if attr_rationale \<noteq> []
         then labelled_insight (service_name @ '': '') attr_rationale ''Configuration rationale''
         else if critical_attrs \<noteq> []
         then labelled_insight (service_name @ '': '') critical_attrs ''Critical reasoning''
         else [])"

definition get_reasoning_description ::
  "(string list \<Rightarrow> string list) \<Rightarrow> ('v \<Rightarrow> string) \<Rightarrow> 'v comparator
     \<Rightarrow> 'v arch_structure \<Rightarrow> 'v arch_structure \<Rightarrow> string" where
  "get_reasoning_description set_order py_str self baseline_structure enhanced_structure =
     (let baseline_services = map fst baseline_structure;
          enhanced_services = map fst enhanced_structure;
          all_services = py_set_union baseline_services enhanced_services;
          descriptions =
            concat (map (service_descriptions py_str self baseline_services enhanced_services)
              (set_order all_services));
          descriptions' =
            (if descriptions = []
             then concat (map (common_service_description self)
                    (take 2 (set_order (py_set_inter baseline_services enhanced_services))))
             else descriptions)
      in if descriptions' \<noteq> [] then py_join ''; '' descriptions'
         else ''No specific reasoning insights available'')"

subsection \<open>The comparison orchestrator\<close>

text \<open>
  The methods \<open>_create_comparison_row\<close> calls on \<open>self\<close>. The row is returned together with
  the sequence of these calls, in the order they are made; the rationale extractor is
  called from \<open>_get_reasoning_description\<close> only.
\<close>

datatype method_call =
    Extract_architecture_structure
  | Compare_services_level
  | Compare_components_level
  | Compare_attributes_level
  | Compare_configurations_level
  | Get_reasoning_description

definition only_in_row :: "string \<Rightarrow> string \<Rightarrow> tabular_comparison_row" where
  "only_in_row arch_id side =
     \<lparr>architecture_id = arch_id,
      services_same = 0, components_same = 0, attributes_same = 0, configurations_same = 0,
      services_differences = ''Architecture only in '' @ side,
      components_differences = ''Architecture only in '' @ side,
      attributes_differences = ''Architecture only in '' @ side,
      configurations_differences = ''Architecture only in '' @ side,
      reasoning_description = ''Architecture exists only in '' @ side @ '' dataset''\<rparr>"

definition create_comparison_row ::
  "(string list \<Rightarrow> string list) \<Rightarrow> ('v \<Rightarrow> string) \<Rightarrow> 'v comparator \<Rightarrow> string
     \<Rightarrow> 'v architecture option \<Rightarrow> 'v architecture option
     \<Rightarrow> tabular_comparison_row \<times> method_call list" where
  "create_comparison_row set_order py_str self arch_id baseline_arch enhanced_arch =
     (if baseline_arch = None then (only_in_row arch_id ''enhanced'', [])
      else if enhanced_arch = None then (only_in_row arch_id ''baseline'', [])
      else
        let baseline_structure = extract_architecture_structure baseline_arch;
            enhanced_structure = extract_architecture_structure enhanced_arch;
            services_comparison = compare_services_level baseline_structure enhanced_structure;
            components_comparison = compare_components_level baseline_structure enhanced_structure;
            attributes_comparison =
              compare_attributes_level set_order baseline_structure enhanced_structure;
            configurations_comparison =
              compare_configurations_level set_order baseline_structure enhanced_structure;
            reasoning_desc =
              get_reasoning_description set_order py_str self baseline_structure enhanced_structure
        in (\<lparr>architecture_id = arch_id,
             services_same = (if fst services_comparison then 1 else 0),
             components_same = (if fst components_comparison then 1 else 0),
             attributes_same = (if fst attributes_comparison then 1 else 0),
             configurations_same = (if fst configurations_comparison then 1 else 0),
             services_differences = snd services_comparison,
             components_differences = snd components_comparison,
             attributes_differences = snd attributes_comparison,
             configurations_differences = snd configurations_comparison,
             reasoning_description = reasoning_desc\<rparr>,
            [Extract_architecture_structure, Extract_architecture_structure,
             Compare_services_level, Compare_components_level, Compare_attributes_level,
             Compare_configurations_level, Get_reasoning_description]))"

text \<open>\<open>__init__\<close>, on the four loaded documents.\<close>

definition init_comparator ::
  "'v architecture list \<Rightarrow> 'v architecture list \<Rightarrow> 'v reasoning_object list
     \<Rightarrow> 'v reasoning_object list \<Rightarrow> 'v comparator" where
  "init_comparator baseline enhanced baseline_reasoning enhanced_reasoning =
     \<lparr>baseline_data = baseline, enhanced_data = enhanced,
      baseline_reasoning_lookup = create_reasoning_lookup baseline_reasoning,
      enhanced_reasoning_lookup = create_reasoning_lookup enhanced_reasoning\<rparr>"

text \<open>The dictionary comprehension \<open>{arch["architecture_id"]: arch for arch in ...}\<close>.\<close>

definition archs_by_id :: "'v architecture list \<Rightarrow> (string \<times> 'v architecture) list" where
  "archs_by_id archs = fold (\<lambda>arch. AList.update (raw_architecture_id arch) arch) archs []"

definition compare_all_architectures_tabular ::
  "(string list \<Rightarrow> string list) \<Rightarrow> ('v \<Rightarrow> string) \<Rightarrow> 'v comparator
     \<Rightarrow> (tabular_comparison_row \<times> method_call list) list" where
  "compare_all_architectures_tabular set_order py_str self =
     (let baseline_archs = archs_by_id (baseline_data self);
          enhanced_archs = archs_by_id (enhanced_data self);
          all_arch_ids = sort (py_set_union (map fst baseline_archs) (map fst enhanced_archs))
      in map (\<lambda>arch_id.
                create_comparison_row set_order py_str self arch_id
                  (map_of baseline_archs arch_id) (map_of enhanced_archs arch_id))
           all_arch_ids)"

section \<open>The specification's descriptions\<close>

subsection \<open>The rationale extractor as described\<close>

definition add_period :: "string \<Rightarrow> string" where
  "add_period s = (if py_endswith_dot s then s else s @ ''.'')"

text \<open>
  The description as the specification words it, under its contract that a result of more
  than 150 characters is cut to 150 followed by three dots: the sentences are the pieces
  of the text itself.
\<close>

definition spec_key_insight :: "string \<Rightarrow> string" where
  "spec_key_insight text =
     (if text = [] then []
      else case find has_key_phrase (py_split_dot_space text) of
             Some s \<Rightarrow> truncate150 (add_period s)
           | None \<Rightarrow>
              (case find (\<lambda>s. length s > 30) (py_split_dot_space text) of
                 Some s \<Rightarrow> truncate150 s
               | None \<Rightarrow> truncate150 text))"

text \<open>
  The description with the step the program adds: the text is stripped of surrounding
  whitespace before it is cut, and so is each sentence.
\<close>

definition stripped_sentences :: "string \<Rightarrow> string list" where
  "stripped_sentences text = map py_strip (py_split_dot_space (py_strip text))"

definition described_key_insight :: "string \<Rightarrow> string" where
  "described_key_insight text =
     (if text = [] then []
      else case find has_key_phrase (stripped_sentences text) of
             Some s \<Rightarrow> truncate150 (add_period s)
           | None \<Rightarrow>
              (case find (\<lambda>s. length s > 30) (stripped_sentences text) of
                 Some s \<Rightarrow> truncate150 s
               | None \<Rightarrow> truncate150 (py_strip text)))"

subsection \<open>The key-set differencers as described\<close>

text \<open>The difference text of two sets of names, with the names of each side sorted.\<close>

definition spec_key_set_text :: "string set \<Rightarrow> string set \<Rightarrow> string" where
  "spec_key_set_text B E =
     (if B = E then ''No differences''
      else py_join ''; ''
             ((if B - E \<noteq> {} then [''Baseline only: '' @ py_join '', '' (sorted_list_of_set (B - E))]
               else [])
            @ (if E - B \<noteq> {} then [''Enhanced only: '' @ py_join '', '' (sorted_list_of_set (E - B))]
               else [])))"

subsection \<open>The attributes level as described\<close>

text \<open>The set of attribute codenames under a component key, \<open>None\<close> when the key is absent.\<close>

definition attr_names :: "(string \<times> (string \<times> 'm) list) list \<Rightarrow> string \<Rightarrow> string set option" where
  "attr_names attrs comp_key = map_option (\<lambda>d. set (map fst d)) (map_of attrs comp_key)"

text \<open>
  The verdict as the specification words it: over the component keys of either side, the
  two attribute maps are equal, an absent key standing for the empty map.
\<close>

definition spec_attributes_same :: "'v arch_structure \<Rightarrow> 'v arch_structure \<Rightarrow> bool" where
  "spec_attributes_same baseline_structure enhanced_structure =
     (let baseline_attrs = get_all_attributes baseline_structure;
          enhanced_attrs = get_all_attributes enhanced_structure
      in list_all (\<lambda>comp_key.
                     py_dict_eq (=) (py_get (map_of baseline_attrs comp_key) [])
                       (py_get (map_of enhanced_attrs comp_key) []))
           (py_set_union (map fst baseline_attrs) (map fst enhanced_attrs)))"

subsection \<open>The components of a normalized architecture and their attributes\<close>

text \<open>
  The components of a structure under their keys \<open>service::component\<close>, in the order of
  the structure; the component a key denotes, the last one under it; its attributes.
\<close>

definition keyed_components :: "'v arch_structure \<Rightarrow> (string \<times> 'v component_entry) list" where
  "keyed_components struct =
     concat (map (\<lambda>(service_name, service_data).
                    map (\<lambda>(comp_name, comp_data). (service_name @ ''::'' @ comp_name, comp_data))
                      (se_components service_data))
               struct)"

definition component_at :: "'v arch_structure \<Rightarrow> string \<Rightarrow> 'v component_entry option" where
  "component_at struct comp_key =
     (case filter (\<lambda>(k, c). k = comp_key) (keyed_components struct) of
        [] \<Rightarrow> None
      | x # xs \<Rightarrow> Some (snd (last (x # xs))))"

definition component_attributes :: "'v arch_structure \<Rightarrow> string \<Rightarrow> 'v attribute list" where
  "component_attributes struct comp_key =
     (case component_at struct comp_key of
        None \<Rightarrow> []
      | Some c \<Rightarrow> ce_attributes_search_space c)"

text \<open>The codename of an attribute, \<open>"unknown"\<close> when it has none.\<close>

definition codename_of :: "'v attribute \<Rightarrow> string" where
  "codename_of attr = py_get (attribute_codename attr) ''unknown''"

text \<open>
  Two structures have the same component keys and, under every key, the same set of
  attribute codenames.
\<close>

definition same_codenames :: "'v arch_structure \<Rightarrow> 'v arch_structure \<Rightarrow> bool" where
  "same_codenames b e =
     (py_set_eq (map fst (keyed_components b)) (map fst (keyed_components e)) \<and>
      list_all (\<lambda>k. py_set_eq (map codename_of (component_attributes b k))
                       (map codename_of (component_attributes e k)))
        (map fst (keyed_components b)))"

text \<open>
  At least one attribute's values differ: under some component key, an attribute of the
  baseline and an attribute of the enhanced side have the same codename and different
  values.
\<close>

definition some_values_differ :: "'v arch_structure \<Rightarrow> 'v arch_structure \<Rightarrow> bool" where
  "some_values_differ b e =
     list_ex (\<lambda>k. list_ex (\<lambda>x. list_ex (\<lambda>y. codename_of y = codename_of x
                                              \<and> attribute_values y \<noteq> attribute_values x)
                                  (component_attributes e k))
                     (component_attributes b k))
       (map fst (keyed_components b))"

text \<open>
  The last attribute of a list that carries a codename, and its values under a component
  key of a structure.
\<close>

definition last_attribute :: "'v attribute list \<Rightarrow> string \<Rightarrow> 'v attribute option" where
  "last_attribute attrs a =
     (case filter (\<lambda>x. codename_of x = a) attrs of
        [] \<Rightarrow> None
      | x # xs \<Rightarrow> Some (last (x # xs)))"

definition last_values_at :: "'v arch_structure \<Rightarrow> string \<Rightarrow> string \<Rightarrow> 'v option option" where
  "last_values_at struct comp_key a =
     map_option attribute_values (last_attribute (component_attributes struct comp_key) a)"

subsection \<open>The normalizer as described\<close>

text \<open>What the normalizer reads from one entry of \<open>components_search_space\<close>.\<close>

definition component_service :: "'v component \<Rightarrow> string" where
  "component_service c =
     py_get (service_codename (py_get (service_search_space c) empty_service_space)) ''Unknown''"

definition component_select :: "'v component \<Rightarrow> 'v list" where
  "component_select c =
     py_get (service_select_attributes (py_get (service_search_space c) empty_service_space)) []"

definition component_entries :: "'v component \<Rightarrow> (string \<times> 'v component_entry) list" where
  "component_entries c =
     map (\<lambda>sc. let comp_name = py_get (service_component_codename sc) ''Unknown''
               in (py_get (component_id c) [] @ ''_'' @ comp_name,
                   \<lparr>ce_component_id = py_get (component_id c) [],
                    ce_service_component_codename = comp_name,
                    ce_attributes_search_space = py_get (attributes_search_space sc) [],
                    ce_number_of_instances = py_get (number_of_instances sc) 1,
                    ce_service_component_sort = py_get (service_component_sort sc) []\<rparr>))
       (py_get (service_components_search_spaces (py_get (service_search_space c) empty_service_space)) [])"

text \<open>
  The composite keys of a service with their entries, in document order; the entry of the
  last occurrence of a key; the selected attributes of the first component of a service.
\<close>

definition service_entries :: "'v component list \<Rightarrow> string \<Rightarrow> (string \<times> 'v component_entry) list" where
  "service_entries cs s = concat (map component_entries (filter (\<lambda>c. component_service c = s) cs))"

definition last_entry :: "'v component list \<Rightarrow> string \<Rightarrow> string \<Rightarrow> 'v component_entry option" where
  "last_entry cs s k =
     (case filter (\<lambda>(k', e). k' = k) (service_entries cs s) of
        [] \<Rightarrow> None
      | e # es \<Rightarrow> Some (snd (last (e # es))))"

definition first_select :: "'v component list \<Rightarrow> string \<Rightarrow> 'v list option" where
  "first_select cs s = map_option component_select (find (\<lambda>c. component_service c = s) cs)"

text \<open>Lookups in a normalized structure, and the equality of two of them as dictionaries.\<close>

definition lookup_component :: "'v arch_structure \<Rightarrow> string \<Rightarrow> string \<Rightarrow> 'v component_entry option" where
  "lookup_component struct s k =
     (case map_of struct s of None \<Rightarrow> None | Some se \<Rightarrow> map_of (se_components se) k)"

definition lookup_select :: "'v arch_structure \<Rightarrow> string \<Rightarrow> 'v list option" where
  "lookup_select struct s = map_option se_select_attributes (map_of struct s)"

definition service_entry_eq :: "'v service_entry \<Rightarrow> 'v service_entry \<Rightarrow> bool" where
  "service_entry_eq se te =
     (se_service_codename se = se_service_codename te \<and>
      se_select_attributes se = se_select_attributes te \<and>
      py_dict_eq (=) (se_components se) (se_components te))"

definition same_normalized :: "'v arch_structure \<Rightarrow> 'v arch_structure \<Rightarrow> bool" where
  "same_normalized a b = py_dict_eq service_entry_eq a b"

definition normalize_components :: "'v component list \<Rightarrow> 'v arch_structure" where
  "normalize_components cs =
     extract_architecture_structure (Some \<lparr>raw_architecture_id = ''arch'', components_search_space = Some cs\<rparr>)"

section \<open>Example documents\<close>

definition example_service_component :: "string \<Rightarrow> 'v attribute list \<Rightarrow> 'v service_component" where
  "example_service_component name attrs =
     \<lparr>service_component_codename = Some name, attributes_search_space = Some attrs,
      number_of_instances = None, service_component_sort = None\<rparr>"

definition example_component ::
  "string \<Rightarrow> string \<Rightarrow> 'v list \<Rightarrow> 'v service_component list \<Rightarrow> 'v component" where
  "example_component cid service sel scs =
     \<lparr>component_id = Some cid,
      service_search_space =
        Some \<lparr>service_codename = Some service, service_select_attributes = Some sel,
              service_components_search_spaces = Some scs\<rparr>\<rparr>"

definition example_attribute :: "string \<Rightarrow> 'v \<Rightarrow> 'v attribute" where
  "example_attribute name v =
     \<lparr>attribute_codename = Some name, attribute_values = Some v,
      attribute_constraint_expr = None, attribute_unit = None\<rparr>"

definition example_architecture :: "string \<Rightarrow> 'v component list \<Rightarrow> 'v architecture" where
  "example_architecture arch_id cs = \<lparr>raw_architecture_id = arch_id, components_search_space = Some cs\<rparr>"

definition example_comparator :: "'v architecture list \<Rightarrow> 'v architecture list \<Rightarrow> 'v comparator" where
  "example_comparator baseline enhanced =
     \<lparr>baseline_data = baseline, enhanced_data = enhanced,
      baseline_reasoning_lookup = [], enhanced_reasoning_lookup = []\<rparr>"

definition lone_baseline :: "nat component list" where
  "lone_baseline = [example_component ''c1'' ''S'' [] [example_service_component ''db'' []]]"

definition lone_enhanced :: "nat component list" where
  "lone_enhanced = [example_component ''c1'' ''S'' [] []]"

definition cpu_baseline :: "nat component list" where
  "cpu_baseline =
     [example_component ''c1'' ''S'' []
        [example_service_component ''db'' [example_attribute ''cpu'' 1],
         example_service_component ''web'' [example_attribute ''ram'' 4]]]"

definition cpu_enhanced :: "nat component list" where
  "cpu_enhanced =
     [example_component ''c1'' ''S'' []
        [example_service_component ''db'' [example_attribute ''cpu'' 2],
         example_service_component ''web'' [example_attribute ''ram'' 4]]]"

definition bare_enhanced :: "nat component list" where
  "bare_enhanced =
     [example_component ''c1'' ''S'' []
        [example_service_component ''db'' [], example_service_component ''web'' []]]"

definition two_sided_comparator :: "nat comparator" where
  "two_sided_comparator =
     example_comparator
       [example_architecture ''archB'' cpu_baseline, example_architecture ''archA'' cpu_baseline]
       [example_architecture ''archB'' cpu_enhanced, example_architecture ''archC'' cpu_enhanced]"

definition select_first :: "nat component list" where
  "select_first = [example_component ''c1'' ''S'' [1] [], example_component ''c2'' ''S'' [2] []]"

definition select_second :: "nat component list" where
  "select_second = [example_component ''c2'' ''S'' [2] [], example_component ''c1'' ''S'' [1] []]"

definition two_services :: "nat component list" where
  "two_services =
     [example_component ''c1'' ''A'' [1] [example_service_component ''db'' []],
      example_component ''c2'' ''B'' [2] [example_service_component ''web'' []]]"

definition two_services_swapped :: "nat component list" where
  "two_services_swapped =
     [example_component ''c2'' ''B'' [2] [example_service_component ''web'' []],
      example_component ''c1'' ''A'' [1] [example_service_component ''db'' []]]"

definition order_comparator :: "nat comparator" where
  "order_comparator =
     example_comparator [example_architecture ''a1'' cpu_baseline]
       [example_architecture ''a1'' bare_enhanced]"

definition dup_baseline :: "nat component list" where
  "dup_baseline =
     [example_component ''c1'' ''S'' []
        [example_service_component ''db'' [example_attribute ''cpu'' 1, example_attribute ''cpu'' 3]]]"

definition dup_enhanced :: "nat component list" where
  "dup_enhanced =
     [example_component ''c1'' ''S'' []
        [example_service_component ''db'' [example_attribute ''cpu'' 2, example_attribute ''cpu'' 3]]]"

section \<open>Properties\<close>

subsection \<open>Folds and dictionaries\<close>

lemma fold_invariant:
  assumes "P d" and "\<And>x d. x \<in> set xs \<Longrightarrow> P d \<Longrightarrow> P (h x d)"
  shows "P (fold h xs d)"
  using assms by (induction xs arbitrary: d) auto

lemma py_set_eq_iff: "py_set_eq a b \<longleftrightarrow> set a = set b"
  by (auto simp: py_set_eq_def list_all_iff)

lemma py_dict_eq_iff:
  assumes da: "distinct (map fst a)" and db: "distinct (map fst b)"
  shows "py_dict_eq veq a b \<longleftrightarrow> (\<forall>k. rel_option veq (map_of a k) (map_of b k))"
proof
  assume eq: "py_dict_eq veq a b"
  then have len: "length a = length b"
    and all: "\<And>k v. (k, v) \<in> set a \<Longrightarrow> \<exists>w. map_of b k = Some w \<and> veq v w"
    by (auto simp: py_dict_eq_def list_all_iff split: option.splits)
  have sub: "set (map fst a) \<subseteq> set (map fst b)"
  proof
    fix k assume "k \<in> set (map fst a)"
    then obtain v where "(k, v) \<in> set a" by auto
    from all [OF this] obtain w where "map_of b k = Some w" by blast
    then show "k \<in> set (map fst b)" by (auto dest: map_of_SomeD intro: rev_image_eqI)
  qed
  have "card (set (map fst a)) = card (set (map fst b))"
    using da db len by (simp add: distinct_card del: set_map)
  with sub have keys: "set (map fst a) = set (map fst b)"
    by (metis card_subset_eq List.finite_set)
  show "\<forall>k. rel_option veq (map_of a k) (map_of b k)"
  proof
    fix k
    show "rel_option veq (map_of a k) (map_of b k)"
    proof (cases "map_of a k")
      case None
      then have "k \<notin> set (map fst a)" by (simp add: map_of_eq_None_iff)
      with keys have "k \<notin> set (map fst b)" by simp
      then have "map_of b k = None" by (simp add: map_of_eq_None_iff)
      with None show ?thesis by simp
    next
      case (Some v)
      then have "(k, v) \<in> set a" by (rule map_of_SomeD)
      from all [OF this] Some show ?thesis by auto
    qed
  qed
next
  assume r: "\<forall>k. rel_option veq (map_of a k) (map_of b k)"
  have keys: "set (map fst a) = set (map fst b)"
  proof -
    have h: "(map_of a k = None) = (map_of b k = None)" for k
      using r [rule_format, of k] by (cases "map_of a k"; cases "map_of b k") auto
    have "k \<in> fst ` set a \<longleftrightarrow> k \<in> fst ` set b" for k
      using h [of k] map_of_eq_None_iff [of a k] map_of_eq_None_iff [of b k] by simp
    then have "fst ` set a = fst ` set b" by blast
    then show ?thesis by simp
  qed
  have len: "length a = length b"
    using distinct_card [OF da] distinct_card [OF db] keys by simp
  have "case map_of b k of None \<Rightarrow> False | Some w \<Rightarrow> veq v w" if "(k, v) \<in> set a" for k v
  proof -
    from that da have "map_of a k = Some v" by simp
    with r [rule_format, of k] show ?thesis by (cases "map_of b k") auto
  qed
  with len show "py_dict_eq veq a b"
    by (auto simp: py_dict_eq_def list_all_iff)
qed

lemma py_dict_eq_eq_iff:
  "distinct (map fst a) \<Longrightarrow> distinct (map fst b) \<Longrightarrow> py_dict_eq (=) a b \<longleftrightarrow> map_of a = map_of b"
  by (auto simp: py_dict_eq_iff option.rel_eq fun_eq_iff)

lemmas normalize_eval =
  normalize_components_def extract_architecture_structure_def add_component_def
  store_service_component_def py_get_def example_component_def example_service_component_def
  example_attribute_def example_architecture_def Let_def empty_service_space_def

subsection \<open>The rationale extractor\<close>

lemma has_key_phrase_nonempty: "has_key_phrase s \<Longrightarrow> s \<noteq> []"
  by (auto simp: has_key_phrase_def key_phrases_def py_lower_def)

lemma collect_key_sentences_filter:
  "collect_key_sentences ss = map add_period (filter has_key_phrase (map py_strip ss))"
  by (induction ss) (auto simp: Let_def add_period_def dest: has_key_phrase_nonempty)

lemma first_meaningful_find:
  "first_meaningful ss = find (\<lambda>s. length s > 30) (map py_strip ss)"
  by (induction ss) (auto simp: Let_def)

lemma case_map_filter_find:
  "(case map g (filter P xs) of [] \<Rightarrow> a | k # ks \<Rightarrow> f k)
     = (case find P xs of None \<Rightarrow> a | Some k \<Rightarrow> f (g k))"
  by (induction xs) auto

lemmas extractor_eval =
  py_strip_def py_isspace_def py_split_dot_space_def has_key_phrase_def key_phrases_def
  py_lower_def py_lower_char_def py_endswith_dot_def truncate150_def add_period_def

text \<open>
  C6, as the program has it. For every text and context label the extractor returns the
  empty string on the empty text; otherwise, with the text stripped of surrounding
  whitespace, cut at every \<open>". "\<close> and each piece stripped, it returns the first piece
  that contains one of the decision phrases in lower case, with a period appended if it
  does not end with one, or else the first piece of more than 30 characters, or else the
  stripped text; and what it returns is cut to 150 characters followed by \<open>"..."\<close> when
  longer. On the sentence about Postgres it returns the first sentence with its period.
\<close>

theorem extract_key_insight_described:
  "extract_key_insight text context = described_key_insight text
   \<and> extract_key_insight
         ''We selected Postgres because it ensures durability. It is also cheap.'' context
       = ''We selected Postgres because it ensures durability.''"
proof
  show "extract_key_insight text context = described_key_insight text"
    by (simp add: extract_key_insight_def described_key_insight_def stripped_sentences_def Let_def
        collect_key_sentences_filter first_meaningful_find case_map_filter_find
        cong: option.case_cong)
  show "extract_key_insight
          ''We selected Postgres because it ensures durability. It is also cheap.'' context
        = ''We selected Postgres because it ensures durability.''"
    by (simp add: extract_key_insight_def extractor_eval)
qed

theorem extract_key_insight_described_witness:
  "extract_key_insight ''It supports growth'' ''Service purpose'' = ''It supports growth.''"
  using extract_key_insight_described [of "''It supports growth''" "''Service purpose''"]
  by (simp add: described_key_insight_def stripped_sentences_def extractor_eval)

text \<open>
  The description as worded differs from the program on a text that begins with a space:
  the program strips it before it looks for a sentence.
\<close>

theorem extract_key_insight_spec_counterexample:
  "extract_key_insight '' because x'' ''Service purpose'' = ''because x.''
   \<and> spec_key_insight '' because x'' = '' because x.''"
  by (simp add: extract_key_insight_def spec_key_insight_def extractor_eval)

text \<open>
  C10. The result of the extractor depends on the text only: two context labels give the
  same result.
\<close>

theorem extract_key_insight_context:
  "extract_key_insight text c1 = extract_key_insight text c2"
  by (simp add: extract_key_insight_def)

subsection \<open>The structure normalizer\<close>

lemma distinct_add_component:
  "distinct (map fst services) \<Longrightarrow> distinct (map fst (add_component c services))"
  by (simp add: add_component_def Let_def AList.distinct_map_entry AList.distinct_update)

lemma distinct_extract: "distinct (map fst (extract_architecture_structure a))"
proof (cases a)
  case None
  then show ?thesis by (simp add: extract_architecture_structure_def)
next
  case (Some arch)
  have "distinct (map fst (fold add_component cs []))" for cs :: "'a component list"
    by (rule fold_invariant) (simp_all add: distinct_add_component)
  with Some show ?thesis by (simp add: extract_architecture_structure_def)
qed

lemma store_service_component_update:
  "store_service_component cid =
    (\<lambda>sc. AList.update (cid @ ''_'' @ py_get (service_component_codename sc) ''Unknown'')
       \<lparr>ce_component_id = cid,
        ce_service_component_codename = py_get (service_component_codename sc) ''Unknown'',
        ce_attributes_search_space = py_get (attributes_search_space sc) [],
        ce_number_of_instances = py_get (number_of_instances sc) 1,
        ce_service_component_sort = py_get (service_component_sort sc) []\<rparr>)"
  by (intro ext) (simp add: store_service_component_def Let_def)

lemma fold_store_service_component:
  "fold (store_service_component (py_get (component_id c) []))
     (py_get (service_components_search_spaces (py_get (service_search_space c) empty_service_space)) [])
     comps
   = fold (\<lambda>(k, e). AList.update k e) (component_entries c) comps"
  by (simp add: store_service_component_update component_entries_def fold_map comp_def Let_def)

lemma add_component_entries:
  "add_component c services =
     AList.map_entry (component_service c)
       (\<lambda>s. s\<lparr>se_components := fold (\<lambda>(k, e). AList.update k e) (component_entries c) (se_components s)\<rparr>)
       (if component_service c \<notin> set (map fst services)
        then AList.update (component_service c)
               \<lparr>se_service_codename = component_service c,
                se_select_attributes = component_select c, se_components = []\<rparr> services
        else services)"
  by (simp add: add_component_def Let_def fold_store_service_component [symmetric]
      component_service_def component_select_def)

lemma fold_update_entries:
  "map_of (fold (\<lambda>(k, e). AList.update k e) es comps) = map_of comps ++ map_of (rev es)"
  by (induction es arbitrary: comps) (auto simp: AList.update_conv' fun_eq_iff map_add_def split: option.splits)

lemma distinct_fold_update_entries:
  "distinct (map fst comps) \<Longrightarrow> distinct (map fst (fold (\<lambda>(k, e). AList.update k e) es comps))"
  by (rule fold_invariant) (auto simp: AList.distinct_update)

lemma last_with_key:
  "(case filter (\<lambda>(k', e). k' = k) es of [] \<Rightarrow> None | e # es' \<Rightarrow> Some (snd (last (e # es'))))
   = map_of (rev es) k"
proof (induction es rule: rev_induct)
  case Nil
  show ?case by simp
next
  case (snoc x es)
  obtain k' e where x: "x = (k', e)" by (cases x)
  show ?case using snoc by (auto simp: x map_add_def split: list.splits)
qed

lemma last_entry_map_of: "last_entry cs s k = map_of (rev (service_entries cs s)) k"
  unfolding last_entry_def by (rule last_with_key)

lemma first_select_snoc:
  "first_select (cs @ [c]) s =
     (case first_select cs s of
        Some x \<Rightarrow> Some x
      | None \<Rightarrow> if component_service c = s then Some (component_select c) else None)"
  by (induction cs) (auto simp: first_select_def)

lemma service_entries_snoc:
  "service_entries (cs @ [c]) s =
     service_entries cs s @ (if component_service c = s then component_entries c else [])"
  by (simp add: service_entries_def)

lemma first_select_None: "first_select cs s = None \<longleftrightarrow> s \<notin> component_service ` set cs"
  by (auto simp: first_select_def find_None_iff)

lemma service_entries_absent: "s \<notin> component_service ` set cs \<Longrightarrow> service_entries cs s = []"
  by (auto simp: service_entries_def filter_empty_conv)

lemma normalize_invariant:
  fixes cs :: "'v component list"
  defines "S \<equiv> fold add_component cs []"
  shows "distinct (map fst S) \<and>
    (\<forall>s. if s \<in> component_service ` set cs
         then (\<exists>se. map_of S s = Some se \<and> se_service_codename se = s
                 \<and> first_select cs s = Some (se_select_attributes se)
                 \<and> distinct (map fst (se_components se))
                 \<and> map_of (se_components se) = map_of (rev (service_entries cs s)))
         else map_of S s = None)"
  unfolding S_def
proof (induction cs rule: rev_induct)
  case Nil
  show ?case by simp
next
  case (snoc c cs)
  let ?S = "fold add_component cs []"
  let ?cn = "component_service c"
  let ?new = "\<lparr>se_service_codename = ?cn, se_select_attributes = component_select c,
                se_components = []\<rparr>"
  let ?S' = "if ?cn \<notin> set (map fst ?S) then AList.update ?cn ?new ?S else ?S"
  let ?g = "\<lambda>s. s\<lparr>se_components :=
              fold (\<lambda>(k, e). AList.update k e) (component_entries c) (se_components s)\<rparr>"
  have R: "fold add_component (cs @ [c]) [] = AList.map_entry ?cn ?g ?S'"
    by (simp add: add_component_entries)
  from snoc have dS: "distinct (map fst ?S)" by blast
  have dR: "distinct (map fst (AList.map_entry ?cn ?g ?S'))"
    using dS by (simp add: AList.distinct_map_entry AList.distinct_update)
  have keys: "?cn \<in> set (map fst ?S) \<longleftrightarrow> ?cn \<in> component_service ` set cs"
  proof -
    have "map_of ?S ?cn \<noteq> None \<longleftrightarrow> ?cn \<in> component_service ` set cs"
      using snoc [THEN conjunct2, rule_format, of ?cn] by (auto split: if_splits)
    then show ?thesis using map_of_eq_None_iff [of ?S ?cn] by simp
  qed
  have other: "map_of (AList.map_entry ?cn ?g ?S') s = map_of ?S s" if "s \<noteq> ?cn" for s
    using that by (simp add: AList.map_of_map_entry AList.update_conv')
  have same: "\<exists>se. map_of (AList.map_entry ?cn ?g ?S') ?cn = Some se \<and> se_service_codename se = ?cn
                 \<and> first_select (cs @ [c]) ?cn = Some (se_select_attributes se)
                 \<and> distinct (map fst (se_components se))
                 \<and> map_of (se_components se) = map_of (rev (service_entries (cs @ [c]) ?cn))"
  proof (cases "?cn \<in> component_service ` set cs")
    case True
    with snoc [THEN conjunct2, rule_format, of ?cn]
    obtain se where se: "map_of ?S ?cn = Some se" "se_service_codename se = ?cn"
        "first_select cs ?cn = Some (se_select_attributes se)"
        "distinct (map fst (se_components se))"
        "map_of (se_components se) = map_of (rev (service_entries cs ?cn))"
      by auto
    from True keys have "?S' = ?S" by simp
    then have "map_of (AList.map_entry ?cn ?g ?S') ?cn = Some (?g se)"
      using se(1) by (simp add: AList.map_of_map_entry)
    moreover have "map_of (se_components (?g se)) = map_of (rev (service_entries (cs @ [c]) ?cn))"
      using se(5) by (simp add: fold_update_entries service_entries_snoc)
    ultimately show ?thesis
      using se(2,3,4) by (simp add: first_select_snoc distinct_fold_update_entries)
  next
    case False
    with keys have "?S' = AList.update ?cn ?new ?S" by simp
    then have "map_of (AList.map_entry ?cn ?g ?S') ?cn = Some (?g ?new)"
      by (simp add: AList.map_of_map_entry AList.update_conv')
    moreover have "map_of (se_components (?g ?new)) = map_of (rev (service_entries (cs @ [c]) ?cn))"
      using False by (simp add: fold_update_entries service_entries_snoc service_entries_absent)
    moreover have "first_select cs ?cn = None" using False by (simp add: first_select_None)
    ultimately show ?thesis
      by (simp add: first_select_snoc distinct_fold_update_entries)
  qed
  show ?case
    unfolding R
  proof (intro conjI allI)
    show "distinct (map fst (AList.map_entry ?cn ?g ?S'))" by (rule dR)
  next
    fix s
    show "if s \<in> component_service ` set (cs @ [c])
         then (\<exists>se. map_of (AList.map_entry ?cn ?g ?S') s = Some se \<and> se_service_codename se = s
                 \<and> first_select (cs @ [c]) s = Some (se_select_attributes se)
                 \<and> distinct (map fst (se_components se))
                 \<and> map_of (se_components se) = map_of (rev (service_entries (cs @ [c]) s)))
         else map_of (AList.map_entry ?cn ?g ?S') s = None"
    proof (cases "s = ?cn")
      case True
      with same show ?thesis by simp
    next
      case False
      then have fs: "first_select (cs @ [c]) s = first_select cs s"
        and ses: "service_entries (cs @ [c]) s = service_entries cs s"
        by (auto simp: first_select_snoc service_entries_snoc split: option.splits)
      from False have mem: "s \<in> component_service ` set (cs @ [c]) \<longleftrightarrow> s \<in> component_service ` set cs"
        by auto
      show ?thesis
        using snoc [THEN conjunct2, rule_format, of s] False
        unfolding mem fs ses other [OF False] by simp
    qed
  qed
qed

lemma normalize_components_fold: "normalize_components cs = fold add_component cs []"
  by (simp add: normalize_components_def extract_architecture_structure_def py_get_def)

lemma normalize_keys: "set (map fst (normalize_components cs)) = component_service ` set cs"
proof -
  have "s \<in> fst ` set (normalize_components cs) \<longleftrightarrow> s \<in> component_service ` set cs" for s
    using normalize_invariant [of cs, THEN conjunct2, rule_format, of s]
      map_of_eq_None_iff [of "normalize_components cs" s]
    by (auto simp: normalize_components_fold split: if_splits)
  then show ?thesis by auto
qed

lemma normalize_lookup_select: "lookup_select (normalize_components cs) s = first_select cs s"
  using normalize_invariant [of cs, THEN conjunct2, rule_format, of s] first_select_None [of cs s]
  by (auto simp: normalize_components_fold lookup_select_def split: if_splits)

lemma normalize_lookup_component:
  "lookup_component (normalize_components cs) s k = last_entry cs s k"
  using normalize_invariant [of cs, THEN conjunct2, rule_format, of s]
  by (auto simp: normalize_components_fold lookup_component_def last_entry_map_of
      service_entries_absent split: if_splits)

lemma set_service_entries:
  "set (service_entries cs s) = (\<Union>c \<in> {c \<in> set cs. component_service c = s}. set (component_entries c))"
  by (auto simp: service_entries_def)

lemma dom_last_entry: "dom (last_entry cs s) = fst ` set (service_entries cs s)"
proof -
  have "last_entry cs s = map_of (rev (service_entries cs s))"
    by (rule ext) (rule last_entry_map_of)
  then show ?thesis by (simp add: dom_map_of_conv_image_fst)
qed

lemma normalize_same:
  assumes f: "\<forall>s. first_select ys s = first_select xs s"
    and l: "\<forall>s k. last_entry ys s k = last_entry xs s k"
  shows "same_normalized (normalize_components xs) (normalize_components ys)"
proof -
  have mem: "s \<in> component_service ` set ys \<longleftrightarrow> s \<in> component_service ` set xs" for s
    using f [rule_format, of s] first_select_None [of xs s] first_select_None [of ys s] by simp
  have "rel_option service_entry_eq (map_of (fold add_component xs []) s)
          (map_of (fold add_component ys []) s)" for s
  proof (cases "s \<in> component_service ` set xs")
    case False
    with mem [of s] show ?thesis
      using normalize_invariant [of xs, THEN conjunct2, rule_format, of s]
        normalize_invariant [of ys, THEN conjunct2, rule_format, of s]
      by simp
  next
    case True
    with mem [of s] have True': "s \<in> component_service ` set ys" by simp
    from True normalize_invariant [of xs, THEN conjunct2, rule_format, of s]
    obtain se where se: "map_of (fold add_component xs []) s = Some se" "se_service_codename se = s"
        "first_select xs s = Some (se_select_attributes se)"
        "distinct (map fst (se_components se))"
        "map_of (se_components se) = map_of (rev (service_entries xs s))"
      by auto
    from True' normalize_invariant [of ys, THEN conjunct2, rule_format, of s]
    obtain te where te: "map_of (fold add_component ys []) s = Some te" "se_service_codename te = s"
        "first_select ys s = Some (se_select_attributes te)"
        "distinct (map fst (se_components te))"
        "map_of (se_components te) = map_of (rev (service_entries ys s))"
      by auto
    have "map_of (rev (service_entries xs s)) = map_of (rev (service_entries ys s))"
      using l by (auto simp: fun_eq_iff last_entry_map_of)
    with se te have "py_dict_eq (=) (se_components se) (se_components te)"
      by (simp add: py_dict_eq_eq_iff)
    moreover have "se_select_attributes se = se_select_attributes te"
      using f [rule_format, of s] se(3) te(3) by simp
    ultimately show ?thesis using se(1,2) te(1,2) by (simp add: service_entry_eq_def)
  qed
  then show ?thesis
    using normalize_invariant [of xs] normalize_invariant [of ys]
    by (simp add: same_normalized_def normalize_components_fold py_dict_eq_iff)
qed

text \<open>
  C2, as the program has it. For every list of components and every reordering of it, the
  normalizer produces the same service codenames and, under each service, the same
  composite component keys. The entry stored under a composite key is the one of its last
  occurrence in document order (last write wins), and the \<open>select_attributes\<close> of a
  service are those of the first component in document order that names the service
  (first write wins). Two orderings that agree on both give the same normalized
  architecture.
\<close>

theorem normalize_components_reordering:
  assumes "mset ys = mset xs"
  shows "set (map fst (normalize_components ys)) = set (map fst (normalize_components xs))
   \<and> (\<forall>s. dom (lookup_component (normalize_components ys) s)
            = dom (lookup_component (normalize_components xs) s))
   \<and> (\<forall>s. lookup_select (normalize_components xs) s = first_select xs s)
   \<and> (\<forall>s k. lookup_component (normalize_components xs) s k = last_entry xs s k)
   \<and> ((\<forall>s. first_select ys s = first_select xs s) \<and> (\<forall>s k. last_entry ys s k = last_entry xs s k)
       \<longrightarrow> same_normalized (normalize_components xs) (normalize_components ys))"
proof -
  from assms have sets: "set ys = set xs" by (rule mset_eq_setD)
  have "lookup_component (normalize_components cs) s = last_entry cs s" for cs :: "'a component list" and s
    by (rule ext) (rule normalize_lookup_component)
  then have "dom (lookup_component (normalize_components ys) s)
            = dom (lookup_component (normalize_components xs) s)" for s
    by (simp add: dom_last_entry set_service_entries sets)
  moreover have "set (map fst (normalize_components ys)) = set (map fst (normalize_components xs))"
    by (simp only: normalize_keys sets)
  ultimately show ?thesis
    by (simp add: normalize_lookup_select normalize_lookup_component normalize_same del: set_map)
qed

theorem normalize_components_reordering_witness:
  "mset two_services_swapped = mset two_services
   \<and> (\<forall>s. first_select two_services_swapped s = first_select two_services s)
   \<and> (\<forall>s k. last_entry two_services_swapped s k = last_entry two_services s k)
   \<and> same_normalized (normalize_components two_services) (normalize_components two_services_swapped)"
proof -
  have m: "mset two_services_swapped = mset two_services"
    by (simp add: two_services_def two_services_swapped_def)
  have f: "\<forall>s. first_select two_services_swapped s = first_select two_services s"
    by (simp add: two_services_def two_services_swapped_def first_select_def component_service_def
        example_component_def py_get_def)
  have l: "\<forall>s k. last_entry two_services_swapped s k = last_entry two_services s k"
    by (simp add: two_services_def two_services_swapped_def last_entry_def service_entries_def
        component_service_def example_component_def py_get_def)
  from normalize_components_reordering [OF m] f l show ?thesis using m by blast
qed

text \<open>
  The claim as worded fails: two components name the same service with different selected
  attributes and carry no service component, so no composite key is repeated, and the two
  orders give different \<open>select_attributes\<close>.
\<close>

theorem normalize_components_reordering_counterexample:
  "mset select_second = mset select_first
   \<and> concat (map component_entries select_first) = []
   \<and> \<not> same_normalized (normalize_components select_first) (normalize_components select_second)"
  by (simp add: select_first_def select_second_def normalize_eval component_entries_def
      same_normalized_def py_dict_eq_def service_entry_eq_def)

subsection \<open>The services level\<close>

lemma set_py_set_diff: "set (py_set_diff a b) = set a - set b"
  by (auto simp: py_set_diff_def)

lemma py_set_diff_empty: "py_set_diff a b = [] \<longleftrightarrow> set a - set b = {}"
  using set_py_set_diff [of a b] by (metis set_empty)

lemma sort_py_set_diff:
  "distinct a \<Longrightarrow> sort (py_set_diff a b) = sorted_list_of_set (set a - set b)"
proof -
  assume "distinct a"
  then have "distinct (py_set_diff a b)" by (simp add: py_set_diff_def)
  then have "sort (py_set_diff a b) = sort (remdups (py_set_diff a b))" by (simp add: distinct_remdups_id)
  also have "\<dots> = sorted_list_of_set (set (py_set_diff a b))"
    by (simp only: sorted_list_of_set_sort_remdups)
  finally show ?thesis by (simp add: set_py_set_diff)
qed

lemma compare_key_sets_spec:
  assumes "distinct a" "distinct b"
  shows "compare_key_sets a b = (set a = set b, spec_key_set_text (set a) (set b))"
proof (cases "set a = set b")
  case True
  then show ?thesis
    by (simp add: compare_key_sets_def py_set_eq_iff spec_key_set_text_def Let_def)
next
  case False
  then have "set a - set b \<noteq> {} \<or> set b - set a \<noteq> {}" by blast
  with False assms show ?thesis
    by (auto simp: compare_key_sets_def py_set_eq_iff spec_key_set_text_def Let_def
        py_set_diff_empty sort_py_set_diff)
qed

text \<open>
  C5. For every two normalized architectures the services level returns as \<open>same\<close> the
  equality of the two sets of service codenames. When the sets are equal the text is
  \<open>"No differences"\<close>; otherwise it is \<open>"Baseline only: "\<close> with the sorted
  baseline-only names joined by \<open>", "\<close> and \<open>"Enhanced only: "\<close> with the sorted
  enhanced-only names, each part present only when its side is non-empty, the baseline
  part first, joined by \<open>"; "\<close>.
\<close>

theorem compare_services_level_spec:
  "compare_services_level (extract_architecture_structure b) (extract_architecture_structure e)
   = (set (map fst (extract_architecture_structure b)) = set (map fst (extract_architecture_structure e)),
      spec_key_set_text (set (map fst (extract_architecture_structure b)))
        (set (map fst (extract_architecture_structure e))))"
  unfolding compare_services_level_def
  by (rule compare_key_sets_spec) (rule distinct_extract)+

theorem compare_services_level_spec_witness:
  "compare_services_level
     (extract_architecture_structure (Some (example_architecture ''a1''
        [example_component ''c1'' ''Sb'' [] [], example_component ''c2'' ''Sa'' ([] :: nat list) []])))
     (extract_architecture_structure (Some (example_architecture ''a1''
        [example_component ''c1'' ''Sc'' [] []])))
   = (False, ''Baseline only: Sa, Sb; Enhanced only: Sc'')"
  using compare_services_level_spec
    [of "Some (example_architecture ''a1''
           [example_component ''c1'' ''Sb'' [] [], example_component ''c2'' ''Sa'' ([] :: nat list) []])"
        "Some (example_architecture ''a1'' [example_component ''c1'' ''Sc'' [] []])"]
  by (simp add: compare_services_level_def compare_key_sets_def normalize_eval
      py_set_eq_def py_set_diff_def)

subsection \<open>The attributes level\<close>

lemma mark_attribute_inv:
  "distinct (map fst (fold mark_attribute as [])) \<and>
   (\<forall>n m. map_of (fold mark_attribute as []) n = Some m \<longrightarrow> m = \<lparr>am_codename = n, am_exists = True\<rparr>)"
  by (rule fold_invariant)
     (auto simp: mark_attribute_def Let_def AList.distinct_update AList.update_conv' split: if_splits)

lemma marker_dict_eq:
  assumes "distinct (map fst d)" "distinct (map fst d')"
    and "\<forall>n m. map_of d n = Some m \<longrightarrow> m = \<lparr>am_codename = n, am_exists = True\<rparr>"
    and "\<forall>n m. map_of d' n = Some m \<longrightarrow> m = \<lparr>am_codename = n, am_exists = True\<rparr>"
  shows "py_dict_eq (=) d d' \<longleftrightarrow> set (map fst d) = set (map fst d')"
proof -
  have m: "map_of x n = (if n \<in> fst ` set x then Some \<lparr>am_codename = n, am_exists = True\<rparr> else None)"
    if "\<forall>n m. map_of x n = Some m \<longrightarrow> m = \<lparr>am_codename = n, am_exists = True\<rparr>" for x :: "(string \<times> attr_marker) list" and n
    using that map_of_eq_None_iff [of x n] by (cases "map_of x n") auto
  have "map_of d = map_of d' \<longleftrightarrow> fst ` set d = fst ` set d'"
  proof
    assume "map_of d = map_of d'"
    then have "dom (map_of d) = dom (map_of d')" by simp
    then show "fst ` set d = fst ` set d'" by (simp add: dom_map_of_conv_image_fst)
  next
    assume "fst ` set d = fst ` set d'"
    then show "map_of d = map_of d'"
      using m [OF assms(3)] m [OF assms(4)] by (auto simp: fun_eq_iff)
  qed
  then show ?thesis using assms(1,2) by (simp add: py_dict_eq_eq_iff)
qed

lemma get_all_attributes_inv:
  "distinct (map fst (get_all_attributes s)) \<and>
   (\<forall>k d. map_of (get_all_attributes s) k = Some d \<longrightarrow>
      distinct (map fst d) \<and>
      (\<forall>n m. map_of d n = Some m \<longrightarrow> m = \<lparr>am_codename = n, am_exists = True\<rparr>))"
  unfolding get_all_attributes_def
proof (rule fold_invariant, goal_cases)
  case 1
  show ?case by simp
next
  case (2 x d)
  obtain service_name service_data where x: "x = (service_name, service_data)" by (cases x)
  show ?case unfolding x prod.case
  proof (rule fold_invariant, goal_cases)
    case 1
    show ?case using 2 by simp
  next
    case (2 y d')
    obtain comp_name comp_data where y: "y = (comp_name, comp_data)" by (cases y)
    show ?case unfolding y prod.case
      using 2 mark_attribute_inv [of "ce_attributes_search_space comp_data"]
      by (auto simp: AList.distinct_update AList.update_conv' split: if_splits)
  qed
qed

lemma attributes_same_iff:
  "py_dict_eq (py_dict_eq (=)) (get_all_attributes b) (get_all_attributes e)
   \<longleftrightarrow> (\<forall>k. attr_names (get_all_attributes b) k = attr_names (get_all_attributes e) k)"
proof -
  let ?ab = "get_all_attributes b" and ?ae = "get_all_attributes e"
  have "rel_option (py_dict_eq (=)) (map_of ?ab k) (map_of ?ae k)
        \<longleftrightarrow> attr_names ?ab k = attr_names ?ae k" for k
  proof (cases "map_of ?ab k"; cases "map_of ?ae k")
    fix d d' assume "map_of ?ab k = Some d" "map_of ?ae k = Some d'"
    then show ?thesis
      using get_all_attributes_inv [of b] get_all_attributes_inv [of e]
      by (simp add: attr_names_def marker_dict_eq del: set_map)
  qed (simp_all add: attr_names_def)
  then show ?thesis
    using get_all_attributes_inv [of b] get_all_attributes_inv [of e]
    by (simp add: py_dict_eq_iff)
qed

lemma normalize_lone_baseline:
  "normalize_components lone_baseline =
     [(''S'', \<lparr>se_service_codename = ''S'', se_select_attributes = [],
              se_components =
                [(''c1_db'', \<lparr>ce_component_id = ''c1'', ce_service_component_codename = ''db'',
                             ce_attributes_search_space = [], ce_number_of_instances = 1,
                             ce_service_component_sort = []\<rparr>)]\<rparr>)]"
  by (simp add: lone_baseline_def normalize_eval)

lemma normalize_lone_enhanced:
  "normalize_components lone_enhanced =
     [(''S'', \<lparr>se_service_codename = ''S'', se_select_attributes = [], se_components = []\<rparr>)]"
  by (simp add: lone_enhanced_def normalize_eval)

lemma attributes_lone_baseline:
  "get_all_attributes (normalize_components lone_baseline) = [(''S::c1_db'', [])]"
  by (simp add: normalize_lone_baseline get_all_attributes_def)

lemma attributes_lone_enhanced: "get_all_attributes (normalize_components lone_enhanced) = []"
  by (simp add: normalize_lone_enhanced get_all_attributes_def)

text \<open>
  C1, as the program has it. For every two structures and every order of visiting sets,
  the attributes level returns \<open>same = True\<close> exactly when the two sides have the same
  component keys and, under every key, the same set of attribute codenames. A key that
  one side lacks is not the same as a key with no attributes.
\<close>

theorem compare_attributes_level_same:
  "fst (compare_attributes_level set_order b e)
   \<longleftrightarrow> (\<forall>k. attr_names (get_all_attributes b) k = attr_names (get_all_attributes e) k)"
  by (simp add: compare_attributes_level_def Let_def attributes_same_iff)

theorem compare_attributes_level_same_witness:
  "attr_names (get_all_attributes (normalize_components lone_baseline)) ''S::c1_db'' = Some {}
   \<and> attr_names (get_all_attributes (normalize_components lone_enhanced)) ''S::c1_db'' = None
   \<and> \<not> fst (compare_attributes_level rev (normalize_components lone_baseline)
              (normalize_components lone_enhanced))"
proof -
  have b: "attr_names (get_all_attributes (normalize_components lone_baseline)) ''S::c1_db'' = Some {}"
    by (simp add: attributes_lone_baseline attr_names_def)
  have e: "attr_names (get_all_attributes (normalize_components lone_enhanced)) ''S::c1_db'' = None"
    by (simp add: attributes_lone_enhanced attr_names_def)
  from b e have "\<not> (\<forall>k. attr_names (get_all_attributes (normalize_components lone_baseline)) k
                      = attr_names (get_all_attributes (normalize_components lone_enhanced)) k)"
    by (metis option.distinct(1))
  with compare_attributes_level_same
    [of rev "normalize_components lone_baseline" "normalize_components lone_enhanced"] b e
  show ?thesis by blast
qed

text \<open>
  The verdict as worded, with an absent key standing for the empty map, is \<open>True\<close> where
  the program returns \<open>False\<close>: the baseline has a component without attributes that
  the enhanced side lacks.
\<close>

theorem compare_attributes_level_spec_counterexample:
  "\<not> fst (compare_attributes_level id (normalize_components lone_baseline)
            (normalize_components lone_enhanced))
   \<and> spec_attributes_same (normalize_components lone_baseline)
        (normalize_components lone_enhanced)"
  by (simp add: compare_attributes_level_def spec_attributes_same_def attributes_lone_baseline
      attributes_lone_enhanced py_dict_eq_def py_set_union_def py_get_def Let_def)

text \<open>
  C9. There are two normalized architectures on which the attributes level returns
  \<open>same = False\<close> with the text \<open>"No differences"\<close>, whatever the order of visiting sets:
  a component without attributes on one side only.
\<close>

theorem compare_attributes_level_silent_difference:
  "\<exists>(b :: nat component list) e. \<forall>set_order.
     compare_attributes_level set_order (normalize_components b) (normalize_components e)
       = (False, ''No differences'')"
proof -
  have "compare_attributes_level set_order (normalize_components lone_baseline)
          (normalize_components lone_enhanced) = (False, ''No differences'')" for set_order
    by (simp add: compare_attributes_level_def attributes_lone_baseline attributes_lone_enhanced
        py_dict_eq_def attributes_entry_def py_get_def py_set_eq_def)
  then show ?thesis by blast
qed

subsection \<open>The configurations level\<close>

lemma configure_attribute_inv: "distinct (map fst (fold configure_attribute as []))"
  by (rule fold_invariant)
     (auto simp: configure_attribute_def Let_def AList.distinct_update)

lemma get_all_configurations_inv:
  "distinct (map fst (get_all_configurations s)) \<and>
   (\<forall>k c. map_of (get_all_configurations s) k = Some c \<longrightarrow> distinct (map fst (cc_attributes c)))"
  unfolding get_all_configurations_def
proof (rule fold_invariant, goal_cases)
  case 1
  show ?case by simp
next
  case (2 x d)
  obtain service_name service_data where x: "x = (service_name, service_data)" by (cases x)
  show ?case unfolding x prod.case
  proof (rule fold_invariant, goal_cases)
    case 1
    show ?case using 2 by simp
  next
    case (2 y d')
    obtain comp_name comp_data where y: "y = (comp_name, comp_data)" by (cases y)
    show ?case unfolding y prod.case
      using 2 configure_attribute_inv [of "ce_attributes_search_space comp_data"]
      by (auto simp: AList.distinct_update AList.update_conv' split: if_splits)
  qed
qed

lemma fold_keyed_update:
  "map_of (fold (\<lambda>(service_name, service_data) acc.
             fold (\<lambda>(comp_name, comp_data).
                     AList.update (service_name @ ''::'' @ comp_name) (g comp_data))
               (se_components service_data) acc) s acc0)
   = map_of acc0 ++ map_of (rev (map (\<lambda>(k, c). (k, g c)) (keyed_components s)))"
proof (induction s arbitrary: acc0)
  case Nil
  show ?case by (simp add: keyed_components_def)
next
  case (Cons x s)
  obtain service_name service_data where x: "x = (service_name, service_data)" by (cases x)
  let ?inner = "\<lambda>(comp_name, comp_data).
                  AList.update (service_name @ ''::'' @ comp_name) (g comp_data)"
  let ?keyed = "map (\<lambda>(comp_name, comp_data). (service_name @ ''::'' @ comp_name, comp_data))
                  (se_components service_data)"
  have inner: "fold ?inner (se_components service_data) acc0
     = fold (\<lambda>(k, e). AList.update k e) (map (\<lambda>(k, c). (k, g c)) ?keyed) acc0"
    by (simp add: fold_map comp_def split_def)
  have k: "keyed_components (x # s) = ?keyed @ keyed_components s"
    by (simp add: keyed_components_def x)
  have "map_of (fold (\<lambda>(service_name, service_data) acc.
             fold (\<lambda>(comp_name, comp_data).
                     AList.update (service_name @ ''::'' @ comp_name) (g comp_data))
               (se_components service_data) acc) (x # s) acc0)
        = map_of (fold ?inner (se_components service_data) acc0)
          ++ map_of (rev (map (\<lambda>(k, c). (k, g c)) (keyed_components s)))"
    by (simp only: x fold_simps prod.case Cons.IH)
  also have "\<dots> = (map_of acc0 ++ map_of (rev (map (\<lambda>(k, c). (k, g c)) ?keyed)))
          ++ map_of (rev (map (\<lambda>(k, c). (k, g c)) (keyed_components s)))"
    by (simp only: inner fold_update_entries)
  also have "\<dots> = map_of acc0 ++ map_of (rev (map (\<lambda>(k, c). (k, g c)) (keyed_components (x # s))))"
    by (simp only: k map_append rev_append map_of_append map_add_assoc)
  finally show ?case .
qed

lemma component_at_map_of: "component_at s k = map_of (rev (keyed_components s)) k"
  unfolding component_at_def by (rule last_with_key)

lemma map_of_rev_map_snd:
  "map_of (rev (map (\<lambda>(k, c). (k, g c)) xs)) k = map_option g (map_of (rev xs) k)"
  by (induction xs rule: rev_induct) (auto simp: split_def)

lemma map_of_get_all_attributes:
  "map_of (get_all_attributes s) k
   = map_option (\<lambda>c. fold mark_attribute (ce_attributes_search_space c) []) (component_at s k)"
  unfolding get_all_attributes_def
  using fold_keyed_update [where g = "\<lambda>c. fold mark_attribute (ce_attributes_search_space c) []"
      and s = s and ?acc0.0 = "[]"]
  by (simp add: map_of_rev_map_snd component_at_map_of)

lemma map_of_get_all_configurations:
  "map_of (get_all_configurations s) k
   = map_option (\<lambda>c. \<lparr>cc_instances = ce_number_of_instances c,
                       cc_sort = ce_service_component_sort c,
                       cc_attributes = fold configure_attribute (ce_attributes_search_space c) []\<rparr>)
       (component_at s k)"
  unfolding get_all_configurations_def
  using fold_keyed_update [where g = "\<lambda>c. \<lparr>cc_instances = ce_number_of_instances c,
                       cc_sort = ce_service_component_sort c,
                       cc_attributes = fold configure_attribute (ce_attributes_search_space c) []\<rparr>"
      and s = s and ?acc0.0 = "[]"]
  by (simp add: map_of_rev_map_snd component_at_map_of)


lemma keys_fold_mark_attribute:
  "fst ` set (fold mark_attribute as d) = codename_of ` set as \<union> fst ` set d"
  by (induction as arbitrary: d)
     (auto simp: mark_attribute_def codename_of_def Let_def AList.dom_update)

lemma attr_names_component_at:
  "attr_names (get_all_attributes s) k
   = map_option (\<lambda>c. codename_of ` set (ce_attributes_search_space c)) (component_at s k)"
  by (cases "component_at s k")
     (simp_all add: attr_names_def map_of_get_all_attributes keys_fold_mark_attribute)

lemma component_at_None: "component_at s k = None \<longleftrightarrow> k \<notin> fst ` set (keyed_components s)"
  by (simp add: component_at_map_of map_of_eq_None_iff)

lemma same_codenames_attr_names:
  assumes "same_codenames b e"
  shows "attr_names (get_all_attributes b) k = attr_names (get_all_attributes e) k"
proof -
  from assms have keys': "set (map fst (keyed_components b)) = set (map fst (keyed_components e))"
    and all: "\<forall>k \<in> set (map fst (keyed_components b)).
        set (map codename_of (component_attributes b k))
          = set (map codename_of (component_attributes e k))"
    unfolding same_codenames_def py_set_eq_iff list_all_iff by blast+
  from keys' have keys: "fst ` set (keyed_components b) = fst ` set (keyed_components e)"
    by simp
  have names: "codename_of ` set (component_attributes b k)
      = codename_of ` set (component_attributes e k)" if "k \<in> fst ` set (keyed_components b)" for k
    using all [rule_format, of k] that by simp
  show ?thesis
  proof (cases "k \<in> fst ` set (keyed_components b)")
    case False
    with keys have "component_at b k = None" "component_at e k = None"
      by (simp_all add: component_at_None)
    then show ?thesis by (simp add: attr_names_component_at)
  next
    case True
    with keys obtain cb ce where "component_at b k = Some cb" "component_at e k = Some ce"
      using component_at_None [of b k] component_at_None [of e k] by auto
    with names [OF True] show ?thesis
      by (simp add: attr_names_component_at component_attributes_def)
  qed
qed

lemma configure_attribute_update:
  "configure_attribute =
     (\<lambda>attr. AList.update (codename_of attr)
        \<lparr>ac_values = attribute_values attr, ac_constraint = attribute_constraint_expr attr,
         ac_unit = attribute_unit attr\<rparr>)"
  by (intro ext) (simp add: configure_attribute_def codename_of_def Let_def)

lemma map_of_rev_last_attribute:
  "map_of (rev (map (\<lambda>x. (codename_of x, g x)) as)) a = map_option g (last_attribute as a)"
  by (induction as rule: rev_induct) (auto simp: last_attribute_def split: list.splits)

lemma map_of_fold_configure_attribute:
  "map_of (fold configure_attribute as []) a
   = map_option (\<lambda>x. \<lparr>ac_values = attribute_values x, ac_constraint = attribute_constraint_expr x,
                       ac_unit = attribute_unit x\<rparr>) (last_attribute as a)"
proof -
  have "fold configure_attribute as []
        = fold (\<lambda>(k, e). AList.update k e)
            (map (\<lambda>x. (codename_of x, \<lparr>ac_values = attribute_values x,
               ac_constraint = attribute_constraint_expr x, ac_unit = attribute_unit x\<rparr>)) as) []"
    by (simp add: configure_attribute_update fold_map comp_def)
  then show ?thesis
    by (simp only: fold_update_entries map_of_rev_last_attribute map_of.simps empty_map_add)
qed

lemma configurations_same_last_values:
  assumes "py_dict_eq comp_config_eq (get_all_configurations b) (get_all_configurations e)"
  shows "last_values_at b k a = last_values_at e k a"
proof -
  let ?cb = "get_all_configurations b" and ?ce = "get_all_configurations e"
  from assms have r: "rel_option comp_config_eq (map_of ?cb k) (map_of ?ce k)"
    using get_all_configurations_inv [of b] get_all_configurations_inv [of e]
    by (simp add: py_dict_eq_iff)
  show ?thesis
  proof (cases "component_at b k")
    case None
    with r have "component_at e k = None"
      by (cases "component_at e k") (simp_all add: map_of_get_all_configurations)
    with None show ?thesis by (simp add: last_values_at_def component_attributes_def)
  next
    case (Some c)
    with r obtain c' where c': "component_at e k = Some c'"
      by (cases "component_at e k") (simp_all add: map_of_get_all_configurations)
    let ?ab = "fold configure_attribute (ce_attributes_search_space c) []"
    let ?ae = "fold configure_attribute (ce_attributes_search_space c') []"
    from r Some c' have "py_dict_eq (=) ?ab ?ae"
      by (simp add: map_of_get_all_configurations comp_config_eq_def)
    then have "map_of ?ab = map_of ?ae"
      by (simp add: py_dict_eq_eq_iff configure_attribute_inv)
    then have "map_option ac_values (map_of ?ab a) = map_option ac_values (map_of ?ae a)" by simp
    then show ?thesis
      by (simp add: last_values_at_def component_attributes_def Some c'
          map_of_fold_configure_attribute option.map_comp comp_def)
  qed
qed

text \<open>
  C4, as the program has it. For every two architectures present on both sides that have
  the same component keys and, under every component key, the same set of attribute
  codenames, and in which, for some component key and some codename, the values of the
  last attribute carrying that codename differ between the two sides, the row has
  \<open>attributes_same = 1\<close> and \<open>configurations_same = 0\<close>: the attributes level compares the
  existence of codenames only, the configurations level compares the contents of the
  attribute kept under each codename, the last one.
\<close>

theorem attributes_same_configurations_differ:
  assumes "same_codenames (extract_architecture_structure (Some b))
             (extract_architecture_structure (Some e))"
    and "last_values_at (extract_architecture_structure (Some b)) k a
           \<noteq> last_values_at (extract_architecture_structure (Some e)) k a"
  shows "attributes_same (fst (create_comparison_row set_order py_str self arch_id (Some b) (Some e))) = 1
       \<and> configurations_same (fst (create_comparison_row set_order py_str self arch_id (Some b) (Some e))) = 0"
proof -
  have "py_dict_eq (py_dict_eq (=)) (get_all_attributes (extract_architecture_structure (Some b)))
          (get_all_attributes (extract_architecture_structure (Some e)))"
    using same_codenames_attr_names [OF assms(1)] attributes_same_iff by blast
  moreover have "\<not> py_dict_eq comp_config_eq (get_all_configurations (extract_architecture_structure (Some b)))
          (get_all_configurations (extract_architecture_structure (Some e)))"
    using assms(2) configurations_same_last_values by blast
  ultimately show ?thesis
    by (simp add: create_comparison_row_def compare_attributes_level_def
        compare_configurations_level_def Let_def)
qed


theorem attributes_same_configurations_differ_witness:
  "same_codenames (extract_architecture_structure (Some (example_architecture ''a1'' cpu_baseline)))
     (extract_architecture_structure (Some (example_architecture ''a1'' cpu_enhanced)))
   \<and> last_values_at (extract_architecture_structure (Some (example_architecture ''a1'' cpu_baseline)))
       ''S::c1_db'' ''cpu'' = Some (Some 1)
   \<and> last_values_at (extract_architecture_structure (Some (example_architecture ''a1'' cpu_enhanced)))
       ''S::c1_db'' ''cpu'' = Some (Some 2)
   \<and> attributes_same (fst (create_comparison_row id (\<lambda>v. []) (example_comparator [] []) ''a1''
       (Some (example_architecture ''a1'' cpu_baseline))
       (Some (example_architecture ''a1'' cpu_enhanced)))) = 1
   \<and> configurations_same (fst (create_comparison_row id (\<lambda>v. []) (example_comparator [] []) ''a1''
       (Some (example_architecture ''a1'' cpu_baseline))
       (Some (example_architecture ''a1'' cpu_enhanced)))) = 0"
proof -
  have s: "same_codenames (extract_architecture_structure (Some (example_architecture ''a1'' cpu_baseline)))
     (extract_architecture_structure (Some (example_architecture ''a1'' cpu_enhanced)))"
    by code_simp
  have b: "last_values_at (extract_architecture_structure (Some (example_architecture ''a1'' cpu_baseline)))
       ''S::c1_db'' ''cpu'' = Some (Some 1)"
    by code_simp
  have e: "last_values_at (extract_architecture_structure (Some (example_architecture ''a1'' cpu_enhanced)))
       ''S::c1_db'' ''cpu'' = Some (Some 2)"
    by code_simp
  from b e have "last_values_at (extract_architecture_structure (Some (example_architecture ''a1'' cpu_baseline)))
       ''S::c1_db'' ''cpu''
     \<noteq> last_values_at (extract_architecture_structure (Some (example_architecture ''a1'' cpu_enhanced)))
       ''S::c1_db'' ''cpu''"
    by simp
  from attributes_same_configurations_differ [OF s this, of id "\<lambda>v. []" "example_comparator [] []" "''a1''"]
    s b e show ?thesis by simp
qed

text \<open>
  The claim as worded fails when a codename is repeated within a component: both sides
  carry the codename \<open>cpu\<close> twice, the values of the first attribute differ, the values of
  the second are equal, and the configuration dictionary keeps the second.
\<close>

theorem attributes_same_configurations_differ_counterexample:
  "same_codenames (extract_architecture_structure (Some (example_architecture ''a1'' dup_baseline)))
     (extract_architecture_structure (Some (example_architecture ''a1'' dup_enhanced)))
   \<and> some_values_differ (extract_architecture_structure (Some (example_architecture ''a1'' dup_baseline)))
       (extract_architecture_structure (Some (example_architecture ''a1'' dup_enhanced)))
   \<and> attributes_same (fst (create_comparison_row id (\<lambda>v. []) (example_comparator [] []) ''a1''
       (Some (example_architecture ''a1'' dup_baseline))
       (Some (example_architecture ''a1'' dup_enhanced)))) = 1
   \<and> configurations_same (fst (create_comparison_row id (\<lambda>v. []) (example_comparator [] []) ''a1''
       (Some (example_architecture ''a1'' dup_baseline))
       (Some (example_architecture ''a1'' dup_enhanced)))) = 1"
  by code_simp

subsection \<open>The comparison orchestrator\<close>

lemma py_join_nonempty: "xs \<noteq> [] \<Longrightarrow> [] \<notin> set xs \<Longrightarrow> py_join sep xs \<noteq> []"
  by (induction sep xs rule: py_join.induct) auto

lemma differences_text_nonempty:
  "[] \<notin> set ds \<Longrightarrow> (if ds \<noteq> [] then py_join sep ds else ''No differences'') \<noteq> []"
  by (simp add: py_join_nonempty)

lemma compare_key_sets_text_nonempty: "snd (compare_key_sets a b) \<noteq> []"
  unfolding compare_key_sets_def Let_def snd_conv
  by (rule differences_text_nonempty) auto

lemma attributes_entry_nonempty: "[] \<notin> set (attributes_entry ab ae k)"
  by (auto simp: attributes_entry_def Let_def)

lemma compare_attributes_level_text_nonempty:
  "snd (compare_attributes_level set_order b e) \<noteq> []"
  unfolding compare_attributes_level_def Let_def snd_conv
  by (rule differences_text_nonempty) (auto simp: attributes_entry_nonempty)

lemma configurations_entry_nonempty: "[] \<notin> set (configurations_entry set_order cb ce k)"
  by (auto simp: configurations_entry_def Let_def)

lemma compare_configurations_level_text_nonempty:
  "snd (compare_configurations_level set_order b e) \<noteq> []"
  unfolding compare_configurations_level_def Let_def snd_conv
  by (rule differences_text_nonempty) (auto simp: configurations_entry_nonempty)

lemma labelled_insight_nonempty: "[] \<notin> set (labelled_insight label t c)"
  by (auto simp: labelled_insight_def Let_def)

lemma service_descriptions_nonempty:
  "[] \<notin> set (service_descriptions py_str self bs es s)"
  by (auto simp: service_descriptions_def Let_def labelled_insight_nonempty split: list.splits)

lemma common_service_description_nonempty: "[] \<notin> set (common_service_description self s)"
  by (auto simp: common_service_description_def Let_def labelled_insight_nonempty)

lemma get_reasoning_description_nonempty:
  "get_reasoning_description set_order py_str self b e \<noteq> []"
proof -
  define ds where "ds = concat (map (service_descriptions py_str self (map fst b) (map fst e))
      (set_order (py_set_union (map fst b) (map fst e))))"
  define cs where "cs = concat (map (common_service_description self)
      (take 2 (set_order (py_set_inter (map fst b) (map fst e)))))"
  define ds' where "ds' = (if ds = [] then cs else ds)"
  have "[] \<notin> set ds" "[] \<notin> set cs"
    by (auto simp: ds_def cs_def service_descriptions_nonempty common_service_description_nonempty)
  then have "[] \<notin> set ds'" by (simp add: ds'_def)
  then have "(if ds' \<noteq> [] then py_join ''; '' ds'
              else ''No specific reasoning insights available'') \<noteq> []"
    by (simp add: py_join_nonempty)
  then show ?thesis
    unfolding get_reasoning_description_def Let_def ds'_def ds_def cs_def .
qed

lemma create_comparison_row_id:
  "architecture_id (fst (create_comparison_row set_order py_str self arch_id ba ea)) = arch_id"
  by (simp add: create_comparison_row_def Let_def only_in_row_def)

lemma create_comparison_row_fields:
  "(let r = fst (create_comparison_row set_order py_str self arch_id ba ea)
    in services_same r \<in> {0, 1} \<and> components_same r \<in> {0, 1}
       \<and> attributes_same r \<in> {0, 1} \<and> configurations_same r \<in> {0, 1}
       \<and> services_differences r \<noteq> [] \<and> components_differences r \<noteq> []
       \<and> attributes_differences r \<noteq> [] \<and> configurations_differences r \<noteq> []
       \<and> reasoning_description r \<noteq> [])"
  by (simp add: create_comparison_row_def Let_def only_in_row_def
      compare_services_level_def compare_components_level_def compare_key_sets_text_nonempty
      compare_attributes_level_text_nonempty compare_configurations_level_text_nonempty
      get_reasoning_description_nonempty)

lemma keys_fold_update:
  "fst ` set (fold (\<lambda>a. AList.update (f a) a) xs d) = f ` set xs \<union> fst ` set d"
  by (induction xs arbitrary: d) (auto simp: AList.dom_update)

lemma keys_archs_by_id: "set (map fst (archs_by_id xs)) = set (map raw_architecture_id xs)"
  by (simp add: archs_by_id_def keys_fold_update)

lemma map_of_archs_by_id_None:
  "map_of (archs_by_id xs) k = None \<longleftrightarrow> k \<notin> set (map raw_architecture_id xs)"
  using keys_archs_by_id [of xs] by (simp add: map_of_eq_None_iff)

lemma all_arch_ids:
  "sort (py_set_union (map fst (archs_by_id xs)) (map fst (archs_by_id ys)))
   = sorted_list_of_set (set (map raw_architecture_id xs) \<union> set (map raw_architecture_id ys))"
proof -
  have "sort (py_set_union (map fst (archs_by_id xs)) (map fst (archs_by_id ys)))
        = sorted_list_of_set (set (map fst (archs_by_id xs) @ map fst (archs_by_id ys)))"
    unfolding py_set_union_def by (simp only: sorted_list_of_set_sort_remdups)
  then show ?thesis by (simp only: set_append keys_archs_by_id)
qed

lemma raw_architecture_id_example: "raw_architecture_id (example_architecture i cs) = i"
  by (simp add: example_architecture_def)

lemma two_sided_rows:
  "compare_all_architectures_tabular id (\<lambda>v. []) two_sided_comparator
   = [(\<lparr>architecture_id = ''archA'', services_same = 0, components_same = 0,
        attributes_same = 0, configurations_same = 0,
        services_differences = ''Architecture only in baseline'',
        components_differences = ''Architecture only in baseline'',
        attributes_differences = ''Architecture only in baseline'',
        configurations_differences = ''Architecture only in baseline'',
        reasoning_description = ''Architecture exists only in baseline dataset''\<rparr>,
       []),
      (\<lparr>architecture_id = ''archB'', services_same = 1, components_same = 1,
        attributes_same = 1, configurations_same = 0,
        services_differences = ''No differences'',
        components_differences = ''No differences'',
        attributes_differences = ''No differences'',
        configurations_differences = ''S::c1_db (cpu: values)'',
        reasoning_description = ''No specific reasoning insights available''\<rparr>,
       [Extract_architecture_structure, Extract_architecture_structure,
        Compare_services_level, Compare_components_level,
        Compare_attributes_level, Compare_configurations_level,
        Get_reasoning_description]),
      (\<lparr>architecture_id = ''archC'', services_same = 0, components_same = 0,
        attributes_same = 0, configurations_same = 0,
        services_differences = ''Architecture only in enhanced'',
        components_differences = ''Architecture only in enhanced'',
        attributes_differences = ''Architecture only in enhanced'',
        configurations_differences = ''Architecture only in enhanced'',
        reasoning_description = ''Architecture exists only in enhanced dataset''\<rparr>,
       [])]"
  by code_simp

text \<open>
  C7. For every comparator the comparison produces one row per architecture identifier of
  the union of the two sides, in ascending order of identifier; in every row each of the
  four \<open>*_same\<close> fields is 0 or 1, and each of the four \<open>*_differences\<close> fields and
  \<open>reasoning_description\<close> is a non-empty string.
\<close>

theorem compare_all_rows:
  "map (\<lambda>(r, calls). architecture_id r) (compare_all_architectures_tabular set_order py_str self)
     = sorted_list_of_set (set (map raw_architecture_id (baseline_data self))
                           \<union> set (map raw_architecture_id (enhanced_data self)))
   \<and> (\<forall>(r, calls) \<in> set (compare_all_architectures_tabular set_order py_str self).
        services_same r \<in> {0, 1} \<and> components_same r \<in> {0, 1}
        \<and> attributes_same r \<in> {0, 1} \<and> configurations_same r \<in> {0, 1}
        \<and> services_differences r \<noteq> [] \<and> components_differences r \<noteq> []
        \<and> attributes_differences r \<noteq> [] \<and> configurations_differences r \<noteq> []
        \<and> reasoning_description r \<noteq> [])"
proof
  have "map (\<lambda>(r, calls). architecture_id r) (compare_all_architectures_tabular set_order py_str self)
        = sort (py_set_union (map fst (archs_by_id (baseline_data self)))
                  (map fst (archs_by_id (enhanced_data self))))"
    by (simp add: compare_all_architectures_tabular_def Let_def case_prod_beta
        create_comparison_row_id comp_def)
  then show "map (\<lambda>(r, calls). architecture_id r) (compare_all_architectures_tabular set_order py_str self)
     = sorted_list_of_set (set (map raw_architecture_id (baseline_data self))
                           \<union> set (map raw_architecture_id (enhanced_data self)))"
    by (simp only: all_arch_ids)
next
  show "\<forall>(r, calls) \<in> set (compare_all_architectures_tabular set_order py_str self).
        services_same r \<in> {0, 1} \<and> components_same r \<in> {0, 1}
        \<and> attributes_same r \<in> {0, 1} \<and> configurations_same r \<in> {0, 1}
        \<and> services_differences r \<noteq> [] \<and> components_differences r \<noteq> []
        \<and> attributes_differences r \<noteq> [] \<and> configurations_differences r \<noteq> []
        \<and> reasoning_description r \<noteq> []"
    unfolding compare_all_architectures_tabular_def Let_def
    using create_comparison_row_fields [where self = self and set_order = set_order and py_str = py_str]
    by (auto simp: case_prod_beta Let_def simp del: insert_iff)
qed

theorem compare_all_rows_witness:
  "map (\<lambda>(r, calls). architecture_id r)
     (compare_all_architectures_tabular id (\<lambda>v. []) two_sided_comparator)
     = [''archA'', ''archB'', ''archC'']
   \<and> list_all (\<lambda>(r, calls).
          services_same r \<in> {0, 1} \<and> components_same r \<in> {0, 1}
          \<and> attributes_same r \<in> {0, 1} \<and> configurations_same r \<in> {0, 1}
          \<and> services_differences r \<noteq> [] \<and> components_differences r \<noteq> []
          \<and> attributes_differences r \<noteq> [] \<and> configurations_differences r \<noteq> []
          \<and> reasoning_description r \<noteq> [])
        (compare_all_architectures_tabular id (\<lambda>v. []) two_sided_comparator)"
  using compare_all_rows [of id "\<lambda>v. []" two_sided_comparator]
  by (simp add: two_sided_rows)

lemma filter_eq_singleton: "distinct xs \<Longrightarrow> x \<in> set xs \<Longrightarrow> filter (\<lambda>i. i = x) xs = [x]"
  by (induction xs) (auto simp: filter_empty_conv)

lemma rows_of_arch_id:
  assumes "arch_id \<in> set (map raw_architecture_id (baseline_data self))
           \<union> set (map raw_architecture_id (enhanced_data self))"
  shows "filter (\<lambda>(r, calls). architecture_id r = arch_id)
           (compare_all_architectures_tabular set_order py_str self)
         = [create_comparison_row set_order py_str self arch_id
              (map_of (archs_by_id (baseline_data self)) arch_id)
              (map_of (archs_by_id (enhanced_data self)) arch_id)]"
proof -
  let ?ids = "sorted_list_of_set (set (map raw_architecture_id (baseline_data self))
                \<union> set (map raw_architecture_id (enhanced_data self)))"
  have "distinct ?ids" "arch_id \<in> set ?ids" using assms by simp_all
  then have "filter (\<lambda>i. i = arch_id) ?ids = [arch_id]" by (rule filter_eq_singleton)
  then show ?thesis
    by (simp add: compare_all_architectures_tabular_def Let_def all_arch_ids filter_map comp_def
        case_prod_beta create_comparison_row_id)
qed

text \<open>
  C3. For every architecture identifier present in the document set of exactly one side,
  the comparison produces exactly one row for it: its four \<open>*_same\<close> fields are 0, its four
  difference fields are \<open>"Architecture only in baseline"\<close> (respectively
  \<open>"Architecture only in enhanced"\<close>), its \<open>reasoning_description\<close> is
  \<open>"Architecture exists only in baseline dataset"\<close> (respectively enhanced), and the row is
  built without a call of the normalizer, of a level differencer or of the reasoning
  description, the only caller of the rationale extractor.
\<close>

theorem one_sided_architecture_row:
  "(arch_id \<in> set (map raw_architecture_id (baseline_data self))
    \<and> arch_id \<notin> set (map raw_architecture_id (enhanced_data self))
    \<longrightarrow> filter (\<lambda>(r, calls). architecture_id r = arch_id)
          (compare_all_architectures_tabular set_order py_str self)
        = [(\<lparr>architecture_id = arch_id,
              services_same = 0, components_same = 0, attributes_same = 0,
              configurations_same = 0,
              services_differences = ''Architecture only in baseline'',
              components_differences = ''Architecture only in baseline'',
              attributes_differences = ''Architecture only in baseline'',
              configurations_differences = ''Architecture only in baseline'',
              reasoning_description = ''Architecture exists only in baseline dataset''\<rparr>,
            [])])
   \<and> (arch_id \<notin> set (map raw_architecture_id (baseline_data self))
      \<and> arch_id \<in> set (map raw_architecture_id (enhanced_data self))
      \<longrightarrow> filter (\<lambda>(r, calls). architecture_id r = arch_id)
            (compare_all_architectures_tabular set_order py_str self)
          = [(\<lparr>architecture_id = arch_id,
                services_same = 0, components_same = 0, attributes_same = 0,
                configurations_same = 0,
                services_differences = ''Architecture only in enhanced'',
                components_differences = ''Architecture only in enhanced'',
                attributes_differences = ''Architecture only in enhanced'',
                configurations_differences = ''Architecture only in enhanced'',
                reasoning_description = ''Architecture exists only in enhanced dataset''\<rparr>,
              [])])"
proof (intro conjI impI; elim conjE)
  assume b: "arch_id \<in> set (map raw_architecture_id (baseline_data self))"
    and e: "arch_id \<notin> set (map raw_architecture_id (enhanced_data self))"
  from b have "arch_id \<in> set (map raw_architecture_id (baseline_data self))
           \<union> set (map raw_architecture_id (enhanced_data self))" by blast
  note rows = rows_of_arch_id [OF this]
  from b e have "map_of (archs_by_id (baseline_data self)) arch_id \<noteq> None"
    and "map_of (archs_by_id (enhanced_data self)) arch_id = None"
    by (simp_all only: map_of_archs_by_id_None not_not not_False_eq_True)
  then show "filter (\<lambda>(r, calls). architecture_id r = arch_id)
          (compare_all_architectures_tabular set_order py_str self)
        = [(\<lparr>architecture_id = arch_id,
              services_same = 0, components_same = 0, attributes_same = 0,
              configurations_same = 0,
              services_differences = ''Architecture only in baseline'',
              components_differences = ''Architecture only in baseline'',
              attributes_differences = ''Architecture only in baseline'',
              configurations_differences = ''Architecture only in baseline'',
              reasoning_description = ''Architecture exists only in baseline dataset''\<rparr>,
            [])]"
    by (simp add: rows create_comparison_row_def only_in_row_def)
next
  assume b: "arch_id \<notin> set (map raw_architecture_id (baseline_data self))"
    and e: "arch_id \<in> set (map raw_architecture_id (enhanced_data self))"
  from e have "arch_id \<in> set (map raw_architecture_id (baseline_data self))
           \<union> set (map raw_architecture_id (enhanced_data self))" by blast
  note rows = rows_of_arch_id [OF this]
  from b have "map_of (archs_by_id (baseline_data self)) arch_id = None"
    by (simp only: map_of_archs_by_id_None not_False_eq_True)
  then show "filter (\<lambda>(r, calls). architecture_id r = arch_id)
            (compare_all_architectures_tabular set_order py_str self)
          = [(\<lparr>architecture_id = arch_id,
                services_same = 0, components_same = 0, attributes_same = 0,
                configurations_same = 0,
                services_differences = ''Architecture only in enhanced'',
                components_differences = ''Architecture only in enhanced'',
                attributes_differences = ''Architecture only in enhanced'',
                configurations_differences = ''Architecture only in enhanced'',
                reasoning_description = ''Architecture exists only in enhanced dataset''\<rparr>,
              [])]"
    by (simp add: rows create_comparison_row_def only_in_row_def)
qed

theorem one_sided_architecture_row_witness:
  "''archA'' \<in> set (map raw_architecture_id (baseline_data two_sided_comparator))
   \<and> ''archA'' \<notin> set (map raw_architecture_id (enhanced_data two_sided_comparator))
   \<and> ''archC'' \<notin> set (map raw_architecture_id (baseline_data two_sided_comparator))
   \<and> ''archC'' \<in> set (map raw_architecture_id (enhanced_data two_sided_comparator))
   \<and> filter (\<lambda>(r, calls). architecture_id r = ''archA'')
        (compare_all_architectures_tabular id (\<lambda>v. []) two_sided_comparator)
      = [(\<lparr>architecture_id = ''archA'',
            services_same = 0, components_same = 0, attributes_same = 0,
            configurations_same = 0,
            services_differences = ''Architecture only in baseline'',
            components_differences = ''Architecture only in baseline'',
            attributes_differences = ''Architecture only in baseline'',
            configurations_differences = ''Architecture only in baseline'',
            reasoning_description = ''Architecture exists only in baseline dataset''\<rparr>,
          [])]
   \<and> filter (\<lambda>(r, calls). architecture_id r = ''archC'')
        (compare_all_architectures_tabular id (\<lambda>v. []) two_sided_comparator)
      = [(\<lparr>architecture_id = ''archC'',
            services_same = 0, components_same = 0, attributes_same = 0,
            configurations_same = 0,
            services_differences = ''Architecture only in enhanced'',
            components_differences = ''Architecture only in enhanced'',
            attributes_differences = ''Architecture only in enhanced'',
            configurations_differences = ''Architecture only in enhanced'',
            reasoning_description = ''Architecture exists only in enhanced dataset''\<rparr>,
          [])]"
  using one_sided_architecture_row [of "''archA''" two_sided_comparator id "\<lambda>v. []"]
    one_sided_architecture_row [of "''archC''" two_sided_comparator id "\<lambda>v. []"]
  by (simp add: two_sided_comparator_def example_comparator_def raw_architecture_id_example)

subsection \<open>The order of visiting a set\<close>

text \<open>
  C8, where the program departs from it. The loop of the attributes level visits the set
  \<open>all_comp_keys\<close> in the order of the interpreter, which differs from run to run. On
  one pair of documents, two orders of visiting give two different texts in
  \<open>attributes_differences\<close>.
\<close>

theorem attributes_text_order:
  "map (\<lambda>(r, calls). attributes_differences r)
     (compare_all_architectures_tabular id (\<lambda>v. []) order_comparator)
     = [''S::c1_db (baseline only: cpu); S::c1_web (baseline only: ram)'']
   \<and> map (\<lambda>(r, calls). attributes_differences r)
       (compare_all_architectures_tabular rev (\<lambda>v. []) order_comparator)
     = [''S::c1_web (baseline only: ram); S::c1_db (baseline only: cpu)'']"
  by code_simp

end
